theory Spec2Isabelle
  imports Main "HOL-Library.Word"
begin

unbundle bit_operations_syntax

section \<open>Apple Notification Center Service client (ble\_ancs\_c.c)\<close>

text \<open>
  A shallow embedding of the client in
  \<^verbatim>\<open>src/targetlibs/nrf5x/nrf5_sdk/components/ble/ble_services/ble_ancs_c/ble_ancs_c.c\<close>.
  The module keeps its state in file-scope and function-scope statics; the embedding
  gathers them in one record and every function takes that record and returns the new one.
\<close>

type_synonym u8 = "8 word"
type_synonym u16 = "16 word"
type_synonym u32 = "32 word"

subsection \<open>Constants of headers that are not among the sources\<close>

text \<open>
  \<^verbatim>\<open>ble_ancs_c.h\<close> and the SoftDevice headers are not part of the sources. The constants
  the code takes from them are parameters of the embedding: every function below receives
  them in a record \<open>h\<close>, and the theorems hold for every value of them unless a hypothesis
  says otherwise. Enumeration constants are 32-bit words, counts and bit positions are
  naturals.
\<close>

record ancs_h =
  BLE_ANCS_COMMAND_ID_GET_NOTIF_ATTRIBUTES :: u32
  BLE_ANCS_NB_OF_ATTRS :: nat
  BLE_ANCS_NB_OF_EVT_ID :: u32
  BLE_ANCS_NB_OF_CATEGORY_ID :: u32
  BLE_ANCS_ATTR_DATA_MAX :: nat
  BLE_ANCS_NOTIFICATION_DATA_LENGTH :: nat
  BLE_ANCS_NOTIF_ATTR_ID_TITLE :: nat
  BLE_ANCS_NOTIF_ATTR_ID_SUBTITLE :: nat
  BLE_ANCS_NOTIF_ATTR_ID_MESSAGE :: nat
  BLE_ANCS_EVENT_FLAG_SILENT :: nat
  BLE_ANCS_EVENT_FLAG_IMPORTANT :: nat
  BLE_ANCS_EVENT_FLAG_PREEXISTING :: nat
  BLE_ANCS_EVENT_FLAG_POSITIVE_ACTION :: nat
  BLE_ANCS_EVENT_FLAG_NEGATIVE_ACTION :: nat
  BLE_GATT_OP_WRITE_REQ :: u8

text \<open>The constants the file defines itself (lines 26 to 40).\<close>

definition BLE_ANCS_NOTIF_EVT_ID_INDEX :: nat where "BLE_ANCS_NOTIF_EVT_ID_INDEX = 0"
definition BLE_ANCS_NOTIF_FLAGS_INDEX :: nat where "BLE_ANCS_NOTIF_FLAGS_INDEX = 1"
definition BLE_ANCS_NOTIF_CATEGORY_ID_INDEX :: nat where "BLE_ANCS_NOTIF_CATEGORY_ID_INDEX = 2"
definition BLE_ANCS_NOTIF_CATEGORY_CNT_INDEX :: nat where "BLE_ANCS_NOTIF_CATEGORY_CNT_INDEX = 3"
definition BLE_ANCS_NOTIF_NOTIF_UID :: nat where "BLE_ANCS_NOTIF_NOTIF_UID = 4"
definition TX_BUFFER_MASK :: u32 where "TX_BUFFER_MASK = 0x07"
definition TX_BUFFER_SIZE :: nat where "TX_BUFFER_SIZE = unat TX_BUFFER_MASK + 1"
definition WRITE_MESSAGE_LENGTH :: nat where "WRITE_MESSAGE_LENGTH = 20"
definition BLE_CCCD_NOTIFY_BIT_MASK :: u16 where "BLE_CCCD_NOTIFY_BIT_MASK = 0x0001"

text \<open>
  \<open>ancs_tx_request_t\<close>: \<open>READ_REQ = 1\<close>, \<open>WRITE_REQ\<close> the next value. A slot of the
  zero-initialised transmit buffer holds 0, which is neither, so the tag is kept as a word.
\<close>

definition READ_REQ :: u32 where "READ_REQ = 1"
definition WRITE_REQ :: u32 where "WRITE_REQ = 2"

subsection \<open>Return codes\<close>

text \<open>
  The codes of \<^verbatim>\<open>nrf_error.h\<close> by name. \<open>NRF_ERROR_OTHER\<close> stands for every other code
  the SoftDevice may answer with (busy, invalid state, ...).
\<close>

datatype nrf_code =
    NRF_SUCCESS
  | NRF_ERROR_NULL
  | NRF_ERROR_INVALID_PARAM
  | NRF_ERROR_INVALID_LENGTH
  | NRF_ERROR_OTHER nat

subsection \<open>Data\<close>

datatype ble_ancs_c_parse_state_t =
    COMMAND_ID_AND_NOTIF_UID
  | ATTR_ID
  | ATTR_LEN1
  | ATTR_LEN2
  | ATTR_DATA
  | DONE

datatype ble_ancs_c_evt_type_t =
    BLE_ANCS_C_EVT_DISCOVER_COMPLETE
  | BLE_ANCS_C_EVT_DISCOVER_FAILED
  | BLE_ANCS_C_EVT_NOTIF
  | BLE_ANCS_C_EVT_INVALID_NOTIF
  | BLE_ANCS_C_EVT_NOTIF_ATTRIBUTE

text \<open>The five one-bit fields of a notification's flags byte.\<close>

record ble_ancs_c_notif_flags_t =
  silent :: u8
  important :: u8
  pre_existing :: u8
  positive_action :: u8
  negative_action :: u8

text \<open>
  A decoded notification. \<open>evt_id\<close> and \<open>category_id\<close> have enumeration types in C; they are
  assigned from bytes of a packet and compared with the number of enumerators, so they are
  words here.
\<close>

record ble_ancs_c_evt_notif_t =
  notif_uid :: u32
  evt_id :: u32
  evt_flags :: ble_ancs_c_notif_flags_t
  category_id :: u32
  category_count :: u8

text \<open>The attribute part of an event: \<open>evt.attr.notif_uid\<close>, \<open>.attr_id\<close>, \<open>.attr_len\<close>.\<close>

record ble_ancs_c_evt_notif_attr_t =
  attr_notif_uid :: u32
  attr_id :: u32
  evt_attr_len :: u16

text \<open>
  \<open>ble_ancs_c_evt_t\<close>. Its \<open>uuid\<close> field is written by the dispatcher only and read nowhere
  in the file; its \<open>ancs_attr_list\<close> field always points to the one registry
  \<open>m_ancs_attr_list\<close>. Both are left out.
\<close>

record ble_ancs_c_evt_t =
  evt_type :: ble_ancs_c_evt_type_t
  notif :: ble_ancs_c_evt_notif_t
  attr :: ble_ancs_c_evt_notif_attr_t

text \<open>
  An entry of the attribute registry. \<open>p_attr_data\<close> is an address in the byte memory
  \<open>mem\<close> below; address 0 is the null pointer.
\<close>

record ble_ancs_c_attr_list_t =
  get :: bool
  attr_len :: u16
  p_attr_data :: nat

text \<open>
  \<open>ble_gattc_write_params_t\<close>, the fields the file writes. \<open>p_value\<close> always points to the
  \<open>gattc_value\<close> array of the same message, so it is not a field here.
\<close>

record ble_gattc_write_params_t =
  write_op :: u8
  handle :: u16
  offset :: u16
  len :: u16

text \<open>
  \<open>write_params_t\<close>: \<open>gattc_value\<close> is an array of \<open>WRITE_MESSAGE_LENGTH\<close> bytes, a function
  from the index here.
\<close>

record write_params_t =
  gattc_value :: "nat \<Rightarrow> u8"
  gattc_params :: ble_gattc_write_params_t

text \<open>
  \<open>tx_message_t\<close>. The C type is a union of \<open>read_handle\<close> and \<open>write_req\<close>; the file only
  ever writes \<open>write_req\<close>, and \<open>read_handle\<close> overlays the first two bytes of
  \<open>gattc_value\<close> (little-endian on the target).
\<close>

record tx_message_t =
  conn_handle :: u16
  msg_type :: u32
  write_req :: write_params_t

definition read_handle :: "tx_message_t \<Rightarrow> u16" where
  "read_handle m =
     ucast (gattc_value (write_req m) 0) OR push_bit 8 (ucast (gattc_value (write_req m) 1))"

text \<open>The handles of \<open>ble_ancs_c_characteristic_t\<close> that the file reads.\<close>

record ble_ancs_c_characteristic_t =
  handle_value :: u16
  handle_cccd :: u16

record ble_ancs_c_service_t =
  control_point :: ble_ancs_c_characteristic_t
  notif_source :: ble_ancs_c_characteristic_t
  data_source :: ble_ancs_c_characteristic_t

text \<open>
  What the module hands to the SoftDevice: \<open>sd_ble_gattc_read (conn_handle, handle, offset)\<close>
  and \<open>sd_ble_gattc_write (conn_handle, params)\<close>; for a write the bytes that \<open>p_value\<close>
  designates at that moment are recorded with the parameters.
\<close>

datatype sd_call =
    Sd_ble_gattc_read u16 u16 u16
  | Sd_ble_gattc_write u16 ble_gattc_write_params_t "u8 list"

text \<open>
  The state of the module.
  \<^item> \<open>m_tx_buffer\<close> is the array of \<open>TX_BUFFER_SIZE\<close> messages and \<open>m_ancs_attr_list\<close> the array
    of \<open>BLE_ANCS_NB_OF_ATTRS\<close> registry entries, both as functions from the index: an index
    beyond the array stands for the memory that follows it, which is what the C code reads
    or writes there.
  \<^item> \<open>ancs_conn_handle\<close> is \<open>mp_ble_ancs->conn_handle\<close>.
  \<^item> \<open>p_data_dest\<close>, \<open>current_attr_index\<close> and \<open>evt\<close> are the function-scope statics of
    \<open>parse_get_notif_attrs_response\<close>.
  \<^item> \<open>mem\<close> is the byte memory holding the application's destination buffers.
  \<^item> \<open>evt_handler_calls\<close> records every call of the application's event handler, oldest first:
    the event structure passed and the memory the handler can see at that moment.
  \<^item> \<open>sd_calls\<close> records every call of the SoftDevice, oldest first.
\<close>

record ancs_state =
  m_tx_buffer :: "nat \<Rightarrow> tx_message_t"
  m_tx_insert_index :: u32
  m_tx_index :: u32
  m_service :: ble_ancs_c_service_t
  ancs_conn_handle :: u16
  m_ancs_attr_list :: "nat \<Rightarrow> ble_ancs_c_attr_list_t"
  m_expected_number_of_attrs :: u32
  m_ancs_evt :: ble_ancs_c_evt_t
  m_parse_state :: ble_ancs_c_parse_state_t
  p_data_dest :: nat
  current_attr_index :: u16
  evt :: ble_ancs_c_evt_t
  mem :: "nat \<Rightarrow> u8"
  evt_handler_calls :: "(ble_ancs_c_evt_t \<times> (nat \<Rightarrow> u8)) list"
  sd_calls :: "sd_call list"

subsection \<open>Byte helpers of app\_util.h\<close>

text \<open>
  Modelled from the spec: \<open>uint32_decode\<close>, \<open>uint32_encode\<close>, \<open>uint16_encode\<close>, \<open>LSB_16\<close> and
  \<open>MSB_16\<close> are defined in \<^verbatim>\<open>app_util.h\<close>, which is not among the sources. The spec gives
  the byte order: the UID is a "4-byte little-endian unique identifier" and the registered
  maximum length is sent "little-endian". The encoders return the bytes they store; the C
  functions return how many there are (4 and 2).
\<close>

definition uint32_decode :: "(nat \<Rightarrow> u8) \<Rightarrow> nat \<Rightarrow> u32" where
  "uint32_decode p i =
     ucast (p i) OR push_bit 8 (ucast (p (i + 1))) OR push_bit 16 (ucast (p (i + 2)))
       OR push_bit 24 (ucast (p (i + 3)))"

definition uint32_encode :: "u32 \<Rightarrow> u8 list" where
  "uint32_encode v = [ucast v, ucast (drop_bit 8 v), ucast (drop_bit 16 v), ucast (drop_bit 24 v)]"

definition uint16_encode :: "u16 \<Rightarrow> u8 list" where
  "uint16_encode v = [ucast v, ucast (drop_bit 8 v)]"

definition LSB_16 :: "u16 \<Rightarrow> u8" where
  "LSB_16 v = ucast (v AND 0x00FF)"

definition MSB_16 :: "u16 \<Rightarrow> u8" where
  "MSB_16 v = ucast (drop_bit 8 (v AND 0xFF00))"

subsection \<open>The application's event handler\<close>

text \<open>\<open>p_ancs->evt_handler (&e)\<close>: the handler is application code; the call is recorded.\<close>

definition evt_handler :: "ble_ancs_c_evt_t \<Rightarrow> ancs_state \<Rightarrow> ancs_state" where
  "evt_handler e st = st\<lparr>evt_handler_calls := evt_handler_calls st @ [(e, mem st)]\<rparr>"

subsection \<open>parse\_get\_notif\_attrs\_response (lines 293 to 409)\<close>

text \<open>
  One pass through the \<open>switch\<close> in the body of the \<open>for\<close> loop: from the state and the
  loop variable \<open>index\<close> to the new state and the new \<open>index\<close>. \<open>p_data_src\<close> is the memory
  at the pointer of that name, \<open>p_data_src i\<close> being \<open>p_data_src[i]\<close>; the first
  \<open>hvx_data_len\<close> bytes are the packet, the rest is whatever follows it in memory.

  The \<open>default\<close> branch of the \<open>switch\<close> has no counterpart: the parse state is a value of
  the datatype.

  \<open>index\<close> is a \<open>uint32_t\<close>. It is below \<open>hvx_data_len\<close> (16 bits) when the body is entered and
  grows by less than \<open>2 ^ 16\<close> in one pass, so it never wraps and is a natural number here.
  \<open>current_attr_index\<close> and \<open>m_expected_number_of_attrs\<close> keep their widths.
\<close>

definition parse_switch ::
  "ancs_h \<Rightarrow> (nat \<Rightarrow> u8) \<Rightarrow> nat \<Rightarrow> ancs_state \<times> nat \<Rightarrow> ancs_state \<times> nat" where
  "parse_switch h p_data_src hvx_data_len c =
    (let st = fst c; index = snd c in
     case m_parse_state st of
       COMMAND_ID_AND_NOTIF_UID \<Rightarrow>
         (let command_id = (ucast (p_data_src index) :: u32);
              index = index + 1;
              st = (if command_id \<noteq> BLE_ANCS_COMMAND_ID_GET_NOTIF_ATTRIBUTES h
                    then st\<lparr>m_parse_state := DONE\<rparr> else st);
              st = st\<lparr>evt := (evt st)\<lparr>attr := (attr (evt st))
                         \<lparr>attr_notif_uid := uint32_decode p_data_src index\<rparr>\<rparr>\<rparr>;
              index = index + 4;
              st = st\<lparr>m_parse_state := ATTR_ID\<rparr>;
              st = (if attr_notif_uid (attr (evt st)) \<noteq> notif_uid (notif (m_ancs_evt st))
                    then st\<lparr>m_parse_state := DONE\<rparr> else st)
          in (st, index))
     | ATTR_ID \<Rightarrow>
         (if m_expected_number_of_attrs st = 0
          then (st\<lparr>m_parse_state := DONE\<rparr>, index + 1)
          else
            (let st = st\<lparr>evt := (evt st)\<lparr>attr := (attr (evt st))
                         \<lparr>attr_id := ucast (p_data_src index)\<rparr>\<rparr>\<rparr>;
                 index = index + 1;
                 st = st\<lparr>p_data_dest :=
                         p_attr_data (m_ancs_attr_list st (unat (attr_id (attr (evt st)))))\<rparr>;
                 st = (if get (m_ancs_attr_list st (unat (attr_id (attr (evt st)))))
                       then st\<lparr>m_parse_state := ATTR_LEN1\<rparr> else st);
                 st = st\<lparr>m_expected_number_of_attrs := m_expected_number_of_attrs st - 1\<rparr>
             in (st, index)))
     | ATTR_LEN1 \<Rightarrow>
         (let st = st\<lparr>evt := (evt st)\<lparr>attr := (attr (evt st))
                      \<lparr>evt_attr_len := ucast (p_data_src index)\<rparr>\<rparr>\<rparr>;
              index = index + 1;
              st = st\<lparr>m_parse_state := ATTR_LEN2\<rparr>
          in (st, index))
     | ATTR_LEN2 \<Rightarrow>
         (let st = st\<lparr>evt := (evt st)\<lparr>attr := (attr (evt st))
                      \<lparr>evt_attr_len := evt_attr_len (attr (evt st))
                                        OR push_bit 8 (ucast (p_data_src index))\<rparr>\<rparr>\<rparr>;
              index = index + 1;
              st = st\<lparr>current_attr_index := 0\<rparr>;
              st = (if evt_attr_len (attr (evt st)) \<noteq> 0
                    then st\<lparr>m_parse_state := ATTR_DATA\<rparr>
                    else
                      (let st = st\<lparr>evt := (evt st)\<lparr>evt_type := BLE_ANCS_C_EVT_NOTIF_ATTRIBUTE\<rparr>\<rparr>;
                           st = evt_handler (evt st) st
                       in st\<lparr>m_parse_state := ATTR_ID\<rparr>))
          in (st, index))
     | ATTR_DATA \<Rightarrow>
         (let c =
               (if current_attr_index st
                     < attr_len (m_ancs_attr_list st (unat (attr_id (attr (evt st)))))
                   \<and> current_attr_index st < evt_attr_len (attr (evt st))
                then (st\<lparr>mem := (mem st)(p_data_dest st + unat (current_attr_index st)
                                             := p_data_src index),
                          current_attr_index := current_attr_index st + 1\<rparr>,
                      index + 1)
                else (st, index));
              st = fst c; index = snd c
          in
            if current_attr_index st = evt_attr_len (attr (evt st))
               \<or> current_attr_index st
                    = attr_len (m_ancs_attr_list st (unat (attr_id (attr (evt st)))))
            then
              (let st = st\<lparr>mem := (mem st)(p_data_dest st + unat (current_attr_index st) := 0)\<rparr>;
                   index = (if current_attr_index st < evt_attr_len (attr (evt st))
                            then index
                                 + unat (evt_attr_len (attr (evt st)) - current_attr_index st)
                            else index);
                   st = st\<lparr>m_parse_state := ATTR_ID\<rparr>;
                   st = st\<lparr>evt := (evt st)\<lparr>evt_type := BLE_ANCS_C_EVT_NOTIF_ATTRIBUTE\<rparr>\<rparr>;
                   st = evt_handler (evt st) st
               in (st, index))
            else (st, index))
     | DONE \<Rightarrow> (st, hvx_data_len))"

text \<open>
  The \<open>for\<close> loop, \<open>for (index = 0; index < hvx_data_len;)\<close>. A pass in the \<open>ATTR_DATA\<close> phase
  that neither copies a byte nor finishes the attribute changes nothing, and then the C
  loop never ends; so the loop is a partial function and \<open>None\<close> means that it does not
  return.
\<close>

partial_function (option) parse_loop ::
  "ancs_h \<Rightarrow> (nat \<Rightarrow> u8) \<Rightarrow> nat \<Rightarrow> ancs_state \<times> nat \<Rightarrow> (ancs_state \<times> nat) option" where
  "parse_loop h p_data_src hvx_data_len c =
     (if snd c < hvx_data_len
      then parse_loop h p_data_src hvx_data_len (parse_switch h p_data_src hvx_data_len c)
      else Some c)"

definition parse_get_notif_attrs_response ::
  "ancs_h \<Rightarrow> ancs_state \<Rightarrow> (nat \<Rightarrow> u8) \<Rightarrow> u16 \<Rightarrow> ancs_state option" where
  "parse_get_notif_attrs_response h st p_data_src hvx_data_len =
     map_option fst (parse_loop h p_data_src (unat hvx_data_len) (st, 0))"

declare parse_loop.simps [code]

subsection \<open>parse\_notif (lines 419 to 485)\<close>

definition ble_ancs_verify_notification_format ::
  "ancs_h \<Rightarrow> ble_ancs_c_evt_notif_t \<Rightarrow> nrf_code" where
  "ble_ancs_verify_notification_format h n =
     (if evt_id n \<ge> BLE_ANCS_NB_OF_EVT_ID h \<or> category_id n \<ge> BLE_ANCS_NB_OF_CATEGORY_ID h
      then NRF_ERROR_INVALID_PARAM
      else NRF_SUCCESS)"

text \<open>
  The only caller (line 500) passes \<open>&m_ancs_evt\<close> for \<open>p_ancs_evt\<close>, so the record that is
  decoded into, the record that is verified and the record that is handed to the handler
  are the same \<open>m_ancs_evt\<close>. There is no \<open>return\<close> after the handler call of the length
  check: the function goes on to the decoding.
\<close>

definition parse_notif :: "ancs_h \<Rightarrow> ancs_state \<Rightarrow> (nat \<Rightarrow> u8) \<Rightarrow> u16 \<Rightarrow> ancs_state" where
  "parse_notif h st p_data_src hvx_data_len =
    (let st = (if unat hvx_data_len \<noteq> BLE_ANCS_NOTIFICATION_DATA_LENGTH h
               then
                 (let st = st\<lparr>m_ancs_evt := (m_ancs_evt st)
                              \<lparr>evt_type := BLE_ANCS_C_EVT_INVALID_NOTIF\<rparr>\<rparr>
                  in evt_handler (m_ancs_evt st) st)
               else st);
         flags = p_data_src BLE_ANCS_NOTIF_FLAGS_INDEX;
         st = st\<lparr>m_ancs_evt := (m_ancs_evt st)\<lparr>notif := (notif (m_ancs_evt st))
                \<lparr>evt_id := ucast (p_data_src BLE_ANCS_NOTIF_EVT_ID_INDEX),
                 evt_flags :=
                   \<lparr>silent = drop_bit (BLE_ANCS_EVENT_FLAG_SILENT h) flags AND 0x01,
                    important = drop_bit (BLE_ANCS_EVENT_FLAG_IMPORTANT h) flags AND 0x01,
                    pre_existing = drop_bit (BLE_ANCS_EVENT_FLAG_PREEXISTING h) flags AND 0x01,
                    positive_action =
                      drop_bit (BLE_ANCS_EVENT_FLAG_POSITIVE_ACTION h) flags AND 0x01,
                    negative_action =
                      drop_bit (BLE_ANCS_EVENT_FLAG_NEGATIVE_ACTION h) flags AND 0x01\<rparr>,
                 category_id := ucast (p_data_src BLE_ANCS_NOTIF_CATEGORY_ID_INDEX),
                 category_count := p_data_src BLE_ANCS_NOTIF_CATEGORY_CNT_INDEX,
                 notif_uid := uint32_decode p_data_src BLE_ANCS_NOTIF_NOTIF_UID\<rparr>\<rparr>\<rparr>;
         err_code = ble_ancs_verify_notification_format h (notif (m_ancs_evt st));
         st = (if err_code = NRF_SUCCESS
               then st\<lparr>m_ancs_evt := (m_ancs_evt st)\<lparr>evt_type := BLE_ANCS_C_EVT_NOTIF\<rparr>\<rparr>
               else st\<lparr>m_ancs_evt := (m_ancs_evt st)
                       \<lparr>evt_type := BLE_ANCS_C_EVT_INVALID_NOTIF\<rparr>\<rparr>)
     in evt_handler (m_ancs_evt st) st)"

subsection \<open>The transmit buffer (lines 252 to 275 and 596 to 693)\<close>

text \<open>
  The call that \<open>tx_buffer_process\<close> makes for a message: a read for \<open>READ_REQ\<close>, a write
  otherwise.
\<close>

definition tx_request :: "tx_message_t \<Rightarrow> sd_call" where
  "tx_request m =
     (if msg_type m = READ_REQ
      then Sd_ble_gattc_read (conn_handle m) (read_handle m) 0
      else Sd_ble_gattc_write (conn_handle m) (gattc_params (write_req m))
             (map (gattc_value (write_req m)) [0..<unat (len (gattc_params (write_req m)))]))"

text \<open>
  \<open>sd\<close> is the SoftDevice as this invocation finds it: the code it returns for a call.
\<close>

definition tx_buffer_process :: "(sd_call \<Rightarrow> nrf_code) \<Rightarrow> ancs_state \<Rightarrow> ancs_state" where
  "tx_buffer_process sd st =
     (if m_tx_index st \<noteq> m_tx_insert_index st
      then
        (let err_code = sd (tx_request (m_tx_buffer st (unat (m_tx_index st))));
             st = st\<lparr>sd_calls :=
                       sd_calls st @ [tx_request (m_tx_buffer st (unat (m_tx_index st)))]\<rparr>
         in if err_code = NRF_SUCCESS
            then (let st = st\<lparr>m_tx_index := m_tx_index st + 1\<rparr>
                  in st\<lparr>m_tx_index := m_tx_index st AND TX_BUFFER_MASK\<rparr>)
            else st)
      else st)"

definition on_evt_write_rsp :: "(sd_call \<Rightarrow> nrf_code) \<Rightarrow> ancs_state \<Rightarrow> ancs_state" where
  "on_evt_write_rsp sd st = tx_buffer_process sd st"

text \<open>\<open>p_msg = &m_tx_buffer[m_tx_insert_index++]\<close>: the slot is the one at the old index.\<close>

definition cccd_configure ::
  "ancs_h \<Rightarrow> (sd_call \<Rightarrow> nrf_code) \<Rightarrow> ancs_state \<Rightarrow> u16 \<Rightarrow> u16 \<Rightarrow> bool
     \<Rightarrow> nrf_code \<times> ancs_state" where
  "cccd_configure h sd st conn_hdl hdl_cccd enable =
    (let cccd_val = (if enable then BLE_CCCD_NOTIFY_BIT_MASK else 0);
         p_msg = unat (m_tx_insert_index st);
         st = st\<lparr>m_tx_insert_index := m_tx_insert_index st + 1\<rparr>;
         st = st\<lparr>m_tx_insert_index := m_tx_insert_index st AND TX_BUFFER_MASK\<rparr>;
         msg = m_tx_buffer st p_msg;
         msg = msg\<lparr>write_req := (write_req msg)\<lparr>gattc_params := (gattc_params (write_req msg))
                 \<lparr>handle := hdl_cccd, len := 2, offset := 0,
                  write_op := BLE_GATT_OP_WRITE_REQ h\<rparr>\<rparr>\<rparr>;
         msg = msg\<lparr>write_req := (write_req msg)\<lparr>gattc_value := (gattc_value (write_req msg))
                 (0 := LSB_16 cccd_val, 1 := MSB_16 cccd_val)\<rparr>\<rparr>;
         msg = msg\<lparr>conn_handle := conn_hdl, msg_type := WRITE_REQ\<rparr>;
         st = st\<lparr>m_tx_buffer := (m_tx_buffer st)(p_msg := msg)\<rparr>
     in (NRF_SUCCESS, tx_buffer_process sd st))"

definition ble_ancs_c_notif_source_notif_enable ::
  "ancs_h \<Rightarrow> (sd_call \<Rightarrow> nrf_code) \<Rightarrow> ancs_state \<Rightarrow> nrf_code \<times> ancs_state" where
  "ble_ancs_c_notif_source_notif_enable h sd st =
     cccd_configure h sd st (ancs_conn_handle st) (handle_cccd (notif_source (m_service st))) True"

definition ble_ancs_c_notif_source_notif_disable ::
  "ancs_h \<Rightarrow> (sd_call \<Rightarrow> nrf_code) \<Rightarrow> ancs_state \<Rightarrow> nrf_code \<times> ancs_state" where
  "ble_ancs_c_notif_source_notif_disable h sd st =
     cccd_configure h sd st (ancs_conn_handle st) (handle_cccd (notif_source (m_service st))) False"

definition ble_ancs_c_data_source_notif_enable ::
  "ancs_h \<Rightarrow> (sd_call \<Rightarrow> nrf_code) \<Rightarrow> ancs_state \<Rightarrow> nrf_code \<times> ancs_state" where
  "ble_ancs_c_data_source_notif_enable h sd st =
     cccd_configure h sd st (ancs_conn_handle st) (handle_cccd (data_source (m_service st))) True"

definition ble_ancs_c_data_source_notif_disable ::
  "ancs_h \<Rightarrow> (sd_call \<Rightarrow> nrf_code) \<Rightarrow> ancs_state \<Rightarrow> nrf_code \<times> ancs_state" where
  "ble_ancs_c_data_source_notif_disable h sd st =
     cccd_configure h sd st (ancs_conn_handle st) (handle_cccd (data_source (m_service st))) False"

text \<open>
  \<open>store_bytes v i bs\<close> is the array \<open>v\<close> after an encoder has written the bytes \<open>bs\<close> at
  \<open>&v[i]\<close>.
\<close>

definition store_bytes :: "(nat \<Rightarrow> u8) \<Rightarrow> nat \<Rightarrow> u8 list \<Rightarrow> nat \<Rightarrow> u8" where
  "store_bytes v i bs = (\<lambda>k. if i \<le> k \<and> k < i + length bs then bs ! (k - i) else v k)"

text \<open>
  The body of the loop over the attributes (lines 671 to 683), on the three things it
  changes: the array \<open>gattc_value\<close>, \<open>index\<close> and \<open>number_of_requested_attr\<close>. The loop
  variable \<open>attr\<close> and \<open>index\<close> are \<open>uint32_t\<close> in C and stay far below \<open>2 ^ 32\<close>;
  \<open>gattc_value[index++] = attr\<close> keeps the low byte of \<open>attr\<close>.
\<close>

definition get_notif_attrs_body ::
  "ancs_h \<Rightarrow> (nat \<Rightarrow> ble_ancs_c_attr_list_t) \<Rightarrow> nat \<Rightarrow> (nat \<Rightarrow> u8) \<times> nat \<times> u32
     \<Rightarrow> (nat \<Rightarrow> u8) \<times> nat \<times> u32" where
  "get_notif_attrs_body h list a s =
    (let v = fst s; index = fst (snd s); number_of_requested_attr = snd (snd s) in
     if get (list a)
     then
       (let v = v(index := of_nat a);
            index = index + 1;
            s2 = (if a = BLE_ANCS_NOTIF_ATTR_ID_TITLE h
                     \<or> a = BLE_ANCS_NOTIF_ATTR_ID_SUBTITLE h
                     \<or> a = BLE_ANCS_NOTIF_ATTR_ID_MESSAGE h
                  then (store_bytes v index (uint16_encode (attr_len (list a))),
                        index + length (uint16_encode (attr_len (list a))))
                  else (v, index))
        in (fst s2, snd s2, number_of_requested_attr + 1))
     else s)"

function get_notif_attrs_loop ::
  "ancs_h \<Rightarrow> (nat \<Rightarrow> ble_ancs_c_attr_list_t) \<Rightarrow> nat \<Rightarrow> (nat \<Rightarrow> u8) \<times> nat \<times> u32
     \<Rightarrow> (nat \<Rightarrow> u8) \<times> nat \<times> u32" where
  "get_notif_attrs_loop h list a s =
     (if a < BLE_ANCS_NB_OF_ATTRS h
      then get_notif_attrs_loop h list (a + 1) (get_notif_attrs_body h list a s)
      else s)"
  by pat_completeness auto
termination
  by (relation "measure (\<lambda>(h, list, a, s). BLE_ANCS_NB_OF_ATTRS h - a)") auto

declare get_notif_attrs_loop.simps [simp del]

text \<open>
  \<open>ble_ancs_get_notif_attrs\<close>. \<open>gattc_value\<close> has \<open>WRITE_MESSAGE_LENGTH\<close> bytes; when the
  command does not fit, the C code writes past the end of the array, which has no defined
  behaviour: the result is \<open>None\<close> then.
\<close>

definition ble_ancs_get_notif_attrs ::
  "ancs_h \<Rightarrow> (sd_call \<Rightarrow> nrf_code) \<Rightarrow> ancs_state \<Rightarrow> u32 \<Rightarrow> (nrf_code \<times> ancs_state) option" where
  "ble_ancs_get_notif_attrs h sd st p_uid =
    (let p_msg = unat (m_tx_insert_index st);
         st = st\<lparr>m_tx_insert_index := m_tx_insert_index st + 1\<rparr>;
         st = st\<lparr>m_tx_insert_index := m_tx_insert_index st AND TX_BUFFER_MASK\<rparr>;
         msg = m_tx_buffer st p_msg;
         msg = msg\<lparr>write_req := (write_req msg)\<lparr>gattc_params := (gattc_params (write_req msg))
                 \<lparr>handle := handle_value (control_point (m_service st)), offset := 0,
                  write_op := BLE_GATT_OP_WRITE_REQ h\<rparr>\<rparr>\<rparr>;
         v = gattc_value (write_req msg);
         v = v(0 := ucast (BLE_ANCS_COMMAND_ID_GET_NOTIF_ATTRIBUTES h));
         index = 1;
         v = store_bytes v index (uint32_encode p_uid);
         index = index + length (uint32_encode p_uid);
         s = get_notif_attrs_loop h (m_ancs_attr_list st) 0 (v, index, 0);
         v = fst s; index = fst (snd s); number_of_requested_attr = snd (snd s)
     in if index > WRITE_MESSAGE_LENGTH then None
        else
          (let msg = msg\<lparr>write_req := (write_req msg)\<lparr>gattc_value := v\<rparr>\<rparr>;
               msg = msg\<lparr>write_req := (write_req msg)\<lparr>gattc_params :=
                       (gattc_params (write_req msg))\<lparr>len := of_nat index\<rparr>\<rparr>\<rparr>;
               msg = msg\<lparr>conn_handle := ancs_conn_handle st, msg_type := WRITE_REQ\<rparr>;
               st = st\<lparr>m_tx_buffer := (m_tx_buffer st)(p_msg := msg)\<rparr>;
               st = st\<lparr>m_expected_number_of_attrs := number_of_requested_attr\<rparr>
           in Some (NRF_SUCCESS, tx_buffer_process sd st)))"

subsection \<open>The application's entry points (lines 696 to 726)\<close>

text \<open>
  \<open>VERIFY_PARAM_NOT_NULL (p)\<close> returns \<open>NRF_ERROR_NULL\<close> when \<open>p\<close> is null and
  \<open>VERIFY_SUCCESS (err_code)\<close> returns \<open>err_code\<close> when it is not \<open>NRF_SUCCESS\<close>; both are
  macros of \<^verbatim>\<open>sdk_macros.h\<close>.
\<close>

definition ble_ancs_c_attr_add ::
  "ancs_h \<Rightarrow> ancs_state \<Rightarrow> u32 \<Rightarrow> nat \<Rightarrow> u16 \<Rightarrow> nrf_code \<times> ancs_state" where
  "ble_ancs_c_attr_add h st ident p_data length_arg =
     (if p_data = 0 then (NRF_ERROR_NULL, st)
      else if length_arg = 0 \<or> unat length_arg > BLE_ANCS_ATTR_DATA_MAX h
      then (NRF_ERROR_INVALID_LENGTH, st)
      else
        (NRF_SUCCESS,
         st\<lparr>m_ancs_attr_list := (m_ancs_attr_list st)
              (unat ident := (m_ancs_attr_list st (unat ident))
                 \<lparr>get := True, attr_len := length_arg, p_attr_data := p_data\<rparr>)\<rparr>))"

definition ble_ancs_c_request_attrs ::
  "ancs_h \<Rightarrow> (sd_call \<Rightarrow> nrf_code) \<Rightarrow> ancs_state \<Rightarrow> ble_ancs_c_evt_notif_t
     \<Rightarrow> (nrf_code \<times> ancs_state) option" where
  "ble_ancs_c_request_attrs h sd st n =
     (let err_code = ble_ancs_verify_notification_format h n in
      if err_code \<noteq> NRF_SUCCESS then Some (err_code, st)
      else
        (case ble_ancs_get_notif_attrs h sd st (notif_uid n) of
           None \<Rightarrow> None
         | Some r \<Rightarrow>
             (let err_code = fst r;
                  st = (snd r)\<lparr>m_parse_state := COMMAND_ID_AND_NOTIF_UID\<rparr>
              in if err_code \<noteq> NRF_SUCCESS then Some (err_code, st)
                 else Some (NRF_SUCCESS, st))))"

subsection \<open>Packets of the data source\<close>

text \<open>
  A packet as the transport hands it over: the pointer \<open>p_data_src\<close> (the memory there) and
  \<open>hvx_data_len\<close>. Its bytes are the first \<open>hvx_data_len\<close> bytes of that memory.
\<close>

type_synonym hvx = "(nat \<Rightarrow> u8) \<times> u16"

definition hvx_bytes :: "hvx \<Rightarrow> u8 list" where
  "hvx_bytes pk = map (fst pk) [0..<unat (snd pk)]"

text \<open>The packets of a response, handed to the parser one after the other.\<close>

fun on_data_source :: "ancs_h \<Rightarrow> ancs_state \<Rightarrow> hvx list \<Rightarrow> ancs_state option" where
  "on_data_source h st [] = Some st"
| "on_data_source h st (pk # pks) =
     (case parse_get_notif_attrs_response h st (fst pk) (snd pk) of
        None \<Rightarrow> None
      | Some st' \<Rightarrow> on_data_source h st' pks)"

text \<open>
  The loop leaves every packet with \<open>index\<close> equal to the packet's length: no pass has
  moved \<open>index\<close> beyond the end of the packet. Two passes can do that: the one for the
  header, which takes five bytes at once, and the one that skips the rest of a truncated
  attribute.
\<close>

fun consumed_exactly :: "ancs_h \<Rightarrow> ancs_state \<Rightarrow> hvx list \<Rightarrow> bool" where
  "consumed_exactly h st [] = True"
| "consumed_exactly h st (pk # pks) =
     (case parse_loop h (fst pk) (unat (snd pk)) (st, 0) of
        None \<Rightarrow> False
      | Some c \<Rightarrow> snd c = unat (snd pk) \<and> consumed_exactly h (fst c) pks)"

text \<open>
  What the application has been told about attributes: for every "attribute received"
  call of the handler the kind, the length in the event, and the bytes of the registered
  destination buffer of that kind (capacity plus one for the terminator) at that moment.
\<close>

definition attribute_events :: "ancs_state \<Rightarrow> (u32 \<times> u16 \<times> u8 list) list" where
  "attribute_events st =
     map (\<lambda>c. (attr_id (attr (fst c)), evt_attr_len (attr (fst c)),
               map (\<lambda>k. snd c (p_attr_data (m_ancs_attr_list st (unat (attr_id (attr (fst c))))) + k))
                 [0..<Suc (unat (attr_len (m_ancs_attr_list st (unat (attr_id (attr (fst c)))))))]))
       (filter (\<lambda>c. evt_type (fst c) = BLE_ANCS_C_EVT_NOTIF_ATTRIBUTE) (evt_handler_calls st))"

text \<open>
  The state in which the \<open>ATTR_DATA\<close> phase leaves the module when it finishes an
  attribute: the bytes \<open>bs\<close> copied behind those already in the destination buffer, the
  terminator written after them, the phase \<open>ATTR_ID\<close>, and the handler called.
\<close>

definition attr_data_done :: "ancs_state \<Rightarrow> u8 list \<Rightarrow> ancs_state" where
  "attr_data_done st bs =
     (let st = st\<lparr>mem := store_bytes (mem st) (p_data_dest st + unat (current_attr_index st))
                             (bs @ [0]),
                  current_attr_index := current_attr_index st + of_nat (length bs),
                  m_parse_state := ATTR_ID,
                  evt := (evt st)\<lparr>evt_type := BLE_ANCS_C_EVT_NOTIF_ATTRIBUTE\<rparr>\<rparr>
      in evt_handler (evt st) st)"

subsection \<open>The fetch command as the specification words it\<close>

text \<open>
  "One command-id byte, the 4-byte little-endian notification UID, then for every
  registered attribute (in registry order) one kind byte, and, only for the title,
  subtitle and message kinds, two further bytes giving the registered maximum length,
  little-endian."
\<close>

definition spec_attribute_request :: "ancs_h \<Rightarrow> (nat \<Rightarrow> ble_ancs_c_attr_list_t) \<Rightarrow> nat \<Rightarrow> u8 list" where
  "spec_attribute_request h list a =
     (if get (list a)
      then of_nat a #
             (if a \<in> {BLE_ANCS_NOTIF_ATTR_ID_TITLE h, BLE_ANCS_NOTIF_ATTR_ID_SUBTITLE h,
                       BLE_ANCS_NOTIF_ATTR_ID_MESSAGE h}
              then [ucast (attr_len (list a)), ucast (drop_bit 8 (attr_len (list a)))]
              else [])
      else [])"

definition spec_fetch_command :: "ancs_h \<Rightarrow> (nat \<Rightarrow> ble_ancs_c_attr_list_t) \<Rightarrow> u32 \<Rightarrow> u8 list" where
  "spec_fetch_command h list uid =
     ucast (BLE_ANCS_COMMAND_ID_GET_NOTIF_ATTRIBUTES h)
       # [ucast uid, ucast (drop_bit 8 uid), ucast (drop_bit 16 uid), ucast (drop_bit 24 uid)]
       @ concat (map (spec_attribute_request h list) [0..<BLE_ANCS_NB_OF_ATTRS h])"

definition spec_kind_bytes :: "ancs_h \<Rightarrow> (nat \<Rightarrow> ble_ancs_c_attr_list_t) \<Rightarrow> nat" where
  "spec_kind_bytes h list = length (filter (\<lambda>a. get (list a)) [0..<BLE_ANCS_NB_OF_ATTRS h])"

subsection \<open>A concrete configuration\<close>

text \<open>
  Values of the header constants as the ANCS protocol numbers them, for evaluating the
  functions on concrete inputs.
\<close>

definition example_h :: ancs_h where
  "example_h =
     \<lparr>BLE_ANCS_COMMAND_ID_GET_NOTIF_ATTRIBUTES = 0, BLE_ANCS_NB_OF_ATTRS = 8,
      BLE_ANCS_NB_OF_EVT_ID = 3, BLE_ANCS_NB_OF_CATEGORY_ID = 12, BLE_ANCS_ATTR_DATA_MAX = 32,
      BLE_ANCS_NOTIFICATION_DATA_LENGTH = 8, BLE_ANCS_NOTIF_ATTR_ID_TITLE = 1,
      BLE_ANCS_NOTIF_ATTR_ID_SUBTITLE = 2, BLE_ANCS_NOTIF_ATTR_ID_MESSAGE = 3,
      BLE_ANCS_EVENT_FLAG_SILENT = 0, BLE_ANCS_EVENT_FLAG_IMPORTANT = 1,
      BLE_ANCS_EVENT_FLAG_PREEXISTING = 2, BLE_ANCS_EVENT_FLAG_POSITIVE_ACTION = 3,
      BLE_ANCS_EVENT_FLAG_NEGATIVE_ACTION = 4, BLE_GATT_OP_WRITE_REQ = 1\<rparr>"

text \<open>The statics as the C start-up leaves them: zero everywhere.\<close>

definition zero_evt :: ble_ancs_c_evt_t where
  "zero_evt =
     \<lparr>evt_type = BLE_ANCS_C_EVT_DISCOVER_COMPLETE,
      notif = \<lparr>notif_uid = 0, evt_id = 0,
               evt_flags = \<lparr>silent = 0, important = 0, pre_existing = 0,
                            positive_action = 0, negative_action = 0\<rparr>,
               category_id = 0, category_count = 0\<rparr>,
      attr = \<lparr>attr_notif_uid = 0, attr_id = 0, evt_attr_len = 0\<rparr>\<rparr>"

definition zero_msg :: tx_message_t where
  "zero_msg =
     \<lparr>conn_handle = 0, msg_type = 0,
      write_req = \<lparr>gattc_value = (\<lambda>_. 0),
                   gattc_params = \<lparr>write_op = 0, handle = 0, offset = 0, len = 0\<rparr>\<rparr>\<rparr>"

definition zero_state :: ancs_state where
  "zero_state =
     \<lparr>m_tx_buffer = (\<lambda>_. zero_msg), m_tx_insert_index = 0, m_tx_index = 0,
      m_service = \<lparr>control_point = \<lparr>handle_value = 0, handle_cccd = 0\<rparr>,
                   notif_source = \<lparr>handle_value = 0, handle_cccd = 0\<rparr>,
                   data_source = \<lparr>handle_value = 0, handle_cccd = 0\<rparr>\<rparr>,
      ancs_conn_handle = 0,
      m_ancs_attr_list = (\<lambda>_. \<lparr>get = False, attr_len = 0, p_attr_data = 0\<rparr>),
      m_expected_number_of_attrs = 0, m_ancs_evt = zero_evt,
      m_parse_state = COMMAND_ID_AND_NOTIF_UID, p_data_dest = 0, current_attr_index = 0,
      evt = zero_evt, mem = (\<lambda>_. 0), evt_handler_calls = [], sd_calls = []\<rparr>"

text \<open>A packet with the given bytes, followed in memory by zeros.\<close>

definition packet :: "u8 list \<Rightarrow> hvx" where
  "packet bs = ((\<lambda>i. if i < length bs then bs ! i else 0), of_nat (length bs))"

text \<open>
  The state in which a fetch is under way: the title registered with a buffer of 2 bytes
  at address 100, the subtitle with a buffer of 4 bytes at address 200, the notification
  with UID 1 received, and its attributes requested while the SoftDevice accepts the write.
\<close>

definition example_fetching :: ancs_state where
  "example_fetching =
     (let st = snd (ble_ancs_c_attr_add example_h zero_state 1 100 2);
          st = snd (ble_ancs_c_attr_add example_h st 2 200 4);
          st = parse_notif example_h st (fst (packet [0, 0, 0, 1, 1, 0, 0, 0])) 8
      in case ble_ancs_c_request_attrs example_h (\<lambda>_. NRF_SUCCESS) st (notif (m_ancs_evt st)) of
           None \<Rightarrow> st
         | Some r \<Rightarrow> snd r)"





text \<open>
  The queue while the SoftDevice answers every call with an error (17 is the number of
  \<open>NRF_ERROR_BUSY\<close>): after one subscription command, and after eight of them.
\<close>

definition example_queued :: ancs_state where
  "example_queued =
     snd (ble_ancs_c_notif_source_notif_enable example_h (\<lambda>_. NRF_ERROR_OTHER 17) zero_state)"

definition example_wrapped :: ancs_state where
  "example_wrapped =
     ((\<lambda>st. snd (ble_ancs_c_notif_source_notif_enable example_h (\<lambda>_. NRF_ERROR_OTHER 17) st))
        ^^ 8) zero_state"

section \<open>Properties\<close>

subsection \<open>The loop of the parser\<close>

lemma parse_loop_exit: "\<not> snd c < n \<Longrightarrow> parse_loop h p n c = Some c"
  by (subst parse_loop.simps) simp

lemma parse_loop_step:
  "snd c < n \<Longrightarrow> parse_loop h p n c = parse_loop h p n (parse_switch h p n c)"
  by (subst parse_loop.simps) simp

lemma parse_switch_DONE:
  "m_parse_state st = DONE \<Longrightarrow> parse_switch h p n (st, i) = (st, n)"
  by (simp add: parse_switch_def)

lemma parse_loop_DONE:
  "m_parse_state st = DONE \<Longrightarrow> i < n \<Longrightarrow> parse_loop h p n (st, i) = Some (st, n)"
  by (simp add: parse_loop_step parse_switch_DONE parse_loop_exit)

lemma parse_response_DONE:
  "m_parse_state st = DONE \<Longrightarrow> parse_get_notif_attrs_response h st p n = Some st"
proof (cases "0 < unat n")
  case True
  assume "m_parse_state st = DONE"
  with True show ?thesis
    by (simp add: parse_get_notif_attrs_response_def parse_loop_DONE)
next
  case False
  then show ?thesis
    by (simp add: parse_get_notif_attrs_response_def parse_loop_exit)
qed

lemma on_data_source_DONE:
  "m_parse_state st = DONE \<Longrightarrow> on_data_source h st pks = Some st"
  by (induction pks) (simp_all add: parse_response_DONE)

text \<open>The pass for the header when the UID differs.\<close>

lemma parse_switch_uid_mismatch:
  assumes "m_parse_state st = COMMAND_ID_AND_NOTIF_UID"
    and "uint32_decode p (Suc i) \<noteq> notif_uid (notif (m_ancs_evt st))"
  shows "parse_switch h p n (st, i) =
           (st\<lparr>evt := (evt st)\<lparr>attr := (attr (evt st))
                  \<lparr>attr_notif_uid := uint32_decode p (Suc i)\<rparr>\<rparr>,
               m_parse_state := DONE\<rparr>, i + 5)"
  using assms by (simp add: parse_switch_def Let_def)

text \<open>
  The whole response after such a header pass. The parser compares the decoded UID with
  \<open>m_ancs_evt.notif.notif_uid\<close>, the UID of the notification that \<open>parse_notif\<close> decoded last.
\<close>

lemma header_uid_mismatch_run:
  assumes "m_parse_state st = COMMAND_ID_AND_NOTIF_UID"
    and "snd pk \<noteq> 0"
    and "uint32_decode (fst pk) 1 \<noteq> notif_uid (notif (m_ancs_evt st))"
  shows "on_data_source h st (pk # pks) =
           Some (st\<lparr>evt := (evt st)\<lparr>attr := (attr (evt st))
                       \<lparr>attr_notif_uid := uint32_decode (fst pk) 1\<rparr>\<rparr>,
                    m_parse_state := DONE\<rparr>)"
proof -
  let ?st' = "st\<lparr>evt := (evt st)\<lparr>attr := (attr (evt st))
                       \<lparr>attr_notif_uid := uint32_decode (fst pk) 1\<rparr>\<rparr>,
                    m_parse_state := DONE\<rparr>"
  have pos: "0 < unat (snd pk)"
    using assms(2) by (simp add: unat_gt_0)
  have sw: "parse_switch h (fst pk) (unat (snd pk)) (st, 0) = (?st', 5)"
    using parse_switch_uid_mismatch [of st "fst pk" 0 h "unat (snd pk)"] assms by simp
  have fin: "m_parse_state ?st' = DONE" by simp
  have "parse_loop h (fst pk) (unat (snd pk)) (?st', 5)
          = Some (?st', if 5 < unat (snd pk) then unat (snd pk) else 5)"
    using fin by (simp add: parse_loop_DONE parse_loop_exit)
  then have "parse_get_notif_attrs_response h st (fst pk) (snd pk) = Some ?st'"
    using pos sw by (simp add: parse_get_notif_attrs_response_def parse_loop_step)
  then show ?thesis
    using fin by (simp add: on_data_source_DONE)
qed




subsection \<open>The header pass when the command identifier is wrong\<close>

text \<open>
  The pass for the header: whatever the command identifier is, the result is decided by
  the UID alone.
\<close>

lemma parse_switch_header:
  assumes "m_parse_state st = COMMAND_ID_AND_NOTIF_UID"
  shows "parse_switch h p n (st, i) =
           (st\<lparr>evt := (evt st)\<lparr>attr := (attr (evt st))
                  \<lparr>attr_notif_uid := uint32_decode p (Suc i)\<rparr>\<rparr>,
               m_parse_state :=
                 (if uint32_decode p (Suc i) \<noteq> notif_uid (notif (m_ancs_evt st))
                  then DONE else ATTR_ID)\<rparr>, i + 5)"
proof (cases "ucast (p i) \<noteq> BLE_ANCS_COMMAND_ID_GET_NOTIF_ATTRIBUTES h")
  case True
  with assms show ?thesis
    by (cases "uint32_decode p (Suc i) \<noteq> notif_uid (notif (m_ancs_evt st))")
      (simp_all add: parse_switch_def Let_def)
next
  case False
  with assms show ?thesis
    by (cases "uint32_decode p (Suc i) \<noteq> notif_uid (notif (m_ancs_evt st))")
      (simp_all add: parse_switch_def Let_def)
qed

text \<open>
  C1. The code sets \<open>DONE\<close> for a wrong command identifier and then, with no \<open>break\<close>,
  goes on to decode the UID and sets \<open>ATTR_ID\<close>. At the input below the first byte is 1, not
  the identifier 0, and the UID matches: the parser does not stop, it calls the handler
  for the title and is left in \<open>ATTR_ID\<close>.
\<close>

theorem wrong_command_id_goes_on:
  "map_option (\<lambda>st. (m_parse_state st, attribute_events st))
     (on_data_source example_h example_fetching [packet [1, 1, 0, 0, 0, 1, 2, 0, 65, 66]])
   = Some (ATTR_ID, [(1, 2, [65, 66, 0])])"
  by code_simp

subsection \<open>A notification of the wrong length\<close>

text \<open>
  C2. There is no \<open>return\<close> after the handler call for a wrong length. For a packet of three
  bytes the handler is called twice, first with "invalid notification", then with a
  notification decoded from the three bytes and from the five bytes that follow the
  packet in memory (\<open>0xAA\<close> here).
\<close>

theorem parse_notif_short_packet:
  "map (\<lambda>c. (evt_type (fst c), evt_id (notif (fst c)), category_count (notif (fst c)),
             notif_uid (notif (fst c))))
     (evt_handler_calls
        (parse_notif example_h zero_state (\<lambda>i. if i < 3 then [2, 0, 0] ! i else 0xAA) 3))
   = [(BLE_ANCS_C_EVT_INVALID_NOTIF, 0, 0, 0),
      (BLE_ANCS_C_EVT_NOTIF, 2, 0xAA, 0xAAAAAAAA)]"
  by code_simp

subsection \<open>A truncated attribute that continues in the next packet\<close>

text \<open>
  C4. The title has a capacity of 2 and a declared length of 4. With the whole response in
  one packet the two remaining bytes are skipped and the subtitle is parsed. When the
  packet ends after the second byte of the title, the skip is lost with the loop variable:
  the next packet starts in \<open>ATTR_ID\<close>, the remaining two bytes of the title are read as
  attribute identifiers and the subtitle is never parsed.
\<close>

theorem truncated_attribute_across_packets:
  "map_option (\<lambda>st. (m_parse_state st, attribute_events st))
     (on_data_source example_h example_fetching
        [packet [0, 1, 0, 0, 0, 1, 4, 0, 65, 66, 5, 6, 2, 1, 0, 69]])
   = Some (ATTR_ID, [(1, 4, [65, 66, 0]), (2, 1, [69, 0, 0, 0, 0])])
   \<and> map_option (\<lambda>st. (m_parse_state st, attribute_events st))
     (on_data_source example_h example_fetching
        [packet [0, 1, 0, 0, 0, 1, 4, 0, 65, 66], packet [5, 6, 2, 1, 0, 69]])
   = Some (DONE, [(1, 4, [65, 66, 0])])"
  by code_simp

subsection \<open>The transmit buffer\<close>

lemma mask_bound: "unat (x AND TX_BUFFER_MASK) < TX_BUFFER_SIZE"
proof -
  have "x AND TX_BUFFER_MASK \<le> TX_BUFFER_MASK"
    by (rule word_and_le1)
  then have "unat (x AND TX_BUFFER_MASK) \<le> unat TX_BUFFER_MASK"
    by (simp add: word_le_nat_alt)
  then show ?thesis
    by (simp add: TX_BUFFER_SIZE_def)
qed



lemma tx_buffer_process_index:
  "m_tx_index (tx_buffer_process sd st) =
     (if m_tx_index st \<noteq> m_tx_insert_index st
         \<and> sd (tx_request (m_tx_buffer st (unat (m_tx_index st)))) = NRF_SUCCESS
      then (m_tx_index st + 1) AND TX_BUFFER_MASK else m_tx_index st)"
  by (simp add: tx_buffer_process_def Let_def)

lemma tx_buffer_process_keeps [simp]:
  "m_tx_buffer (tx_buffer_process sd st) = m_tx_buffer st"
  "m_tx_insert_index (tx_buffer_process sd st) = m_tx_insert_index st"
  "m_expected_number_of_attrs (tx_buffer_process sd st) = m_expected_number_of_attrs st"
  "m_parse_state (tx_buffer_process sd st) = m_parse_state st"
  "m_ancs_attr_list (tx_buffer_process sd st) = m_ancs_attr_list st"
  by (simp_all add: tx_buffer_process_def Let_def)



subsection \<open>The fetch command\<close>

lemma store_bytes_Nil [simp]: "store_bytes v i [] = v"
  by (auto simp: store_bytes_def fun_eq_iff)

lemma store_bytes_single: "v(i := x) = store_bytes v i [x]"
  by (auto simp: store_bytes_def fun_eq_iff)

lemma store_bytes_append:
  "store_bytes (store_bytes v i xs) (i + length xs) ys = store_bytes v i (xs @ ys)"
  by (auto simp: store_bytes_def fun_eq_iff nth_append)

lemma store_bytes_read: "map (store_bytes v i bs) [i..<i + length bs] = bs"
  by (rule nth_equalityI) (simp_all add: store_bytes_def)

lemma get_notif_attrs_body_eq:
  "get_notif_attrs_body h list a (v, i, n) =
     (store_bytes v i (spec_attribute_request h list a),
      i + length (spec_attribute_request h list a),
      n + (if get (list a) then 1 else 0))"
proof -
  have two: "store_bytes (store_bytes v i [x]) (Suc i) [y, z] = store_bytes v i [x, y, z]" for x y z
    using store_bytes_append [of v i "[x]" "[y, z]"] by simp
  show ?thesis
    by (simp add: get_notif_attrs_body_def spec_attribute_request_def Let_def
        uint16_encode_def store_bytes_single two)
qed

lemma get_notif_attrs_loop_eq:
  "a \<le> BLE_ANCS_NB_OF_ATTRS h \<Longrightarrow>
   get_notif_attrs_loop h list a (v, i, n) =
     (store_bytes v i (concat (map (spec_attribute_request h list) [a..<BLE_ANCS_NB_OF_ATTRS h])),
      i + length (concat (map (spec_attribute_request h list) [a..<BLE_ANCS_NB_OF_ATTRS h])),
      n + of_nat (length (filter (\<lambda>a. get (list a)) [a..<BLE_ANCS_NB_OF_ATTRS h])))"
proof (induction "BLE_ANCS_NB_OF_ATTRS h - a" arbitrary: a v i n)
  case 0
  then show ?case
    by (simp add: get_notif_attrs_loop.simps)
next
  case (Suc d)
  then have lt: "a < BLE_ANCS_NB_OF_ATTRS h" and d: "d = BLE_ANCS_NB_OF_ATTRS h - (a + 1)"
    and le: "a + 1 \<le> BLE_ANCS_NB_OF_ATTRS h"
    by simp_all
  have l: "get_notif_attrs_loop h list a (v, i, n) =
      get_notif_attrs_loop h list (a + 1)
        (store_bytes v i (spec_attribute_request h list a),
         i + length (spec_attribute_request h list a),
         n + (if get (list a) then 1 else 0))"
    using lt by (subst get_notif_attrs_loop.simps) (simp add: get_notif_attrs_body_eq)
  show ?case
    unfolding l Suc.hyps(1) [OF d le]
    using lt by (simp add: upt_conv_Cons store_bytes_append add.assoc)
qed

lemma spec_attribute_request_length:
  "length (spec_attribute_request h list a)
     \<le> 1 + 2 * (if a \<in> {BLE_ANCS_NOTIF_ATTR_ID_TITLE h, BLE_ANCS_NOTIF_ATTR_ID_SUBTITLE h,
                            BLE_ANCS_NOTIF_ATTR_ID_MESSAGE h} then 1 else 0)"
  by (simp add: spec_attribute_request_def)

lemma length_concat_le:
  "(\<And>x. length (f x) \<le> 1 + 2 * (if x \<in> S then 1 else (0::nat))) \<Longrightarrow>
   length (concat (map f xs)) \<le> length xs + 2 * length (filter (\<lambda>x. x \<in> S) xs)"
proof (induction xs)
  case Nil
  then show ?case by simp
next
  case (Cons x xs)
  have "length (f x) \<le> 1 + 2 * (if x \<in> S then 1 else 0)"
    by (rule Cons.prems)
  moreover have "length (concat (map f xs)) \<le> length xs + 2 * length (filter (\<lambda>x. x \<in> S) xs)"
    by (rule Cons.IH) (rule Cons.prems)
  ultimately show ?case
    by (simp split: if_splits)
qed

lemma spec_fetch_command_length:
  assumes "BLE_ANCS_NB_OF_ATTRS h \<le> 9"
  shows "length (spec_fetch_command h list uid) \<le> WRITE_MESSAGE_LENGTH"
proof -
  let ?S = "{BLE_ANCS_NOTIF_ATTR_ID_TITLE h, BLE_ANCS_NOTIF_ATTR_ID_SUBTITLE h,
             BLE_ANCS_NOTIF_ATTR_ID_MESSAGE h}"
  let ?xs = "[0..<BLE_ANCS_NB_OF_ATTRS h]"
  have "length (filter (\<lambda>x. x \<in> ?S) ?xs) = card ({x. x \<in> ?S} \<inter> set ?xs)"
    by (rule distinct_length_filter) simp
  also have "\<dots> \<le> card ?S"
    by (rule card_mono) auto
  also have "\<dots> \<le> 3"
    by (simp add: card_insert_if)
  finally have three: "length (filter (\<lambda>x. x \<in> ?S) ?xs) \<le> 3" .
  have "length (concat (map (spec_attribute_request h list) ?xs))
          \<le> length ?xs + 2 * length (filter (\<lambda>x. x \<in> ?S) ?xs)"
    by (rule length_concat_le) (rule spec_attribute_request_length)
  with three assms show ?thesis
    by (simp add: spec_fetch_command_def WRITE_MESSAGE_LENGTH_def)
qed

text \<open>
  The state after the command has been put into the slot at the fill cursor and before
  \<open>tx_buffer_process\<close> runs.
\<close>

lemma ble_ancs_get_notif_attrs_eq:
  assumes "length (spec_fetch_command h (m_ancs_attr_list st) uid) \<le> WRITE_MESSAGE_LENGTH"
  shows "ble_ancs_get_notif_attrs h sd st uid =
    Some (NRF_SUCCESS, tx_buffer_process sd
      (st\<lparr>m_tx_insert_index := (m_tx_insert_index st + 1) AND TX_BUFFER_MASK,
          m_tx_buffer := (m_tx_buffer st)(unat (m_tx_insert_index st) :=
            (m_tx_buffer st (unat (m_tx_insert_index st)))
              \<lparr>write_req :=
                 \<lparr>gattc_value =
                    store_bytes (gattc_value (write_req (m_tx_buffer st (unat (m_tx_insert_index st)))))
                      0 (spec_fetch_command h (m_ancs_attr_list st) uid),
                  gattc_params =
                    \<lparr>write_op = BLE_GATT_OP_WRITE_REQ h,
                     handle = handle_value (control_point (m_service st)), offset = 0,
                     len = of_nat (length (spec_fetch_command h (m_ancs_attr_list st) uid))\<rparr>\<rparr>,
               conn_handle := ancs_conn_handle st, msg_type := WRITE_REQ\<rparr>),
          m_expected_number_of_attrs := of_nat (spec_kind_bytes h (m_ancs_attr_list st))\<rparr>))"
proof -
  let ?B = "concat (map (spec_attribute_request h (m_ancs_attr_list st))
              [0..<BLE_ANCS_NB_OF_ATTRS h])"
  let ?v = "gattc_value (write_req (m_tx_buffer st (unat (m_tx_insert_index st))))"
  have hd: "store_bytes (?v(0 := c)) (Suc 0) (uint32_encode uid) = store_bytes ?v 0 (c # uint32_encode uid)" for c
    using store_bytes_append [of ?v 0 "[c]" "uint32_encode uid"]
    by (simp add: store_bytes_single)
  have len4: "length (uint32_encode uid) = 4"
    by (simp add: uint32_encode_def)
  have app: "store_bytes (store_bytes ?v 0 (c # uint32_encode uid)) 5 ?B
             = store_bytes ?v 0 (c # uint32_encode uid @ ?B)" for c
    using store_bytes_append [of ?v 0 "c # uint32_encode uid" ?B] by (simp add: len4)
  have lp: "get_notif_attrs_loop h (m_ancs_attr_list st) 0
              (store_bytes ?v 0 (c # uint32_encode uid), 5, 0)
            = (store_bytes ?v 0 (c # uint32_encode uid @ ?B), 5 + length ?B,
               of_nat (spec_kind_bytes h (m_ancs_attr_list st)))" for c
    by (simp add: get_notif_attrs_loop_eq spec_kind_bytes_def app)
  have le: "5 + length ?B \<le> WRITE_MESSAGE_LENGTH"
    using assms by (simp add: spec_fetch_command_def)
  have cmd: "spec_fetch_command h (m_ancs_attr_list st) uid
             = ucast (BLE_ANCS_COMMAND_ID_GET_NOTIF_ATTRIBUTES h) # uint32_encode uid @ ?B"
    by (simp add: spec_fetch_command_def uint32_encode_def)
  show ?thesis
    unfolding ble_ancs_get_notif_attrs_def cmd
    using le
    apply (simp add: Let_def hd lp len4)
    apply (rule arg_cong [where f = "tx_buffer_process sd"])
    apply (cases st)
    apply (simp add: fun_eq_iff)
    done
qed

lemma tx_request_fetch:
  assumes "length cmd \<le> WRITE_MESSAGE_LENGTH"
  shows "tx_request (m\<lparr>write_req := \<lparr>gattc_value = store_bytes v 0 cmd,
                                     gattc_params = \<lparr>write_op = w, handle = hv, offset = 0,
                                                     len = of_nat (length cmd)\<rparr>\<rparr>,
                        conn_handle := c, msg_type := WRITE_REQ\<rparr>)
         = Sd_ble_gattc_write c \<lparr>write_op = w, handle = hv, offset = 0,
                                 len = of_nat (length cmd)\<rparr> cmd"
proof -
  have "unat (of_nat (length cmd) :: u16) = length cmd"
    using assms by (simp add: WRITE_MESSAGE_LENGTH_def unat_of_nat)
  then show ?thesis
    using store_bytes_read [of v 0 cmd]
    by (simp add: tx_request_def READ_REQ_def WRITE_REQ_def)
qed

text \<open>
  C7. When the registry has at most nine entries the command always fits into
  \<open>gattc_value\<close>. Then \<open>ble_ancs_get_notif_attrs\<close> returns \<open>NRF_SUCCESS\<close>; the message it
  has put into the slot at the fill cursor is a write to the control point whose bytes
  are the command as the specification words it (command identifier, UID little-endian,
  then per registered attribute in registry order its kind byte, followed by the
  registered length little-endian for title, subtitle and message only); and the
  expected-attribute count is the number of kind bytes in it.
\<close>

theorem fetch_command_layout:
  assumes "BLE_ANCS_NB_OF_ATTRS h \<le> 9"
  shows "\<exists>st'. ble_ancs_get_notif_attrs h sd st uid = Some (NRF_SUCCESS, st')
           \<and> tx_request (m_tx_buffer st' (unat (m_tx_insert_index st)))
               = Sd_ble_gattc_write (ancs_conn_handle st)
                   \<lparr>write_op = BLE_GATT_OP_WRITE_REQ h,
                    handle = handle_value (control_point (m_service st)), offset = 0,
                    len = of_nat (length (spec_fetch_command h (m_ancs_attr_list st) uid))\<rparr>
                   (spec_fetch_command h (m_ancs_attr_list st) uid)
           \<and> unat (m_expected_number_of_attrs st') = spec_kind_bytes h (m_ancs_attr_list st)"
proof -
  have fit: "length (spec_fetch_command h (m_ancs_attr_list st) uid) \<le> WRITE_MESSAGE_LENGTH"
    using assms by (rule spec_fetch_command_length)
  have "spec_kind_bytes h (m_ancs_attr_list st) \<le> BLE_ANCS_NB_OF_ATTRS h"
    unfolding spec_kind_bytes_def
    using length_filter_le [of "\<lambda>a. get (m_ancs_attr_list st a)" "[0..<BLE_ANCS_NB_OF_ATTRS h]"]
    by simp
  then have "unat (of_nat (spec_kind_bytes h (m_ancs_attr_list st)) :: u32)
               = spec_kind_bytes h (m_ancs_attr_list st)"
    using assms by (simp add: unat_of_nat)
  then show ?thesis
    by (simp add: ble_ancs_get_notif_attrs_eq [OF fit] tx_request_fetch [OF fit])
qed

theorem fetch_command_layout_witness:
  "BLE_ANCS_NB_OF_ATTRS example_h \<le> 9
   \<and> (\<exists>st'. ble_ancs_get_notif_attrs example_h (\<lambda>_. NRF_SUCCESS) example_fetching 0x01020304
                = Some (NRF_SUCCESS, st')
           \<and> tx_request (m_tx_buffer st' (unat (m_tx_insert_index example_fetching)))
               = Sd_ble_gattc_write 0 \<lparr>write_op = 1, handle = 0, offset = 0, len = 11\<rparr>
                   [0, 4, 3, 2, 1, 1, 2, 0, 2, 4, 0]
           \<and> unat (m_expected_number_of_attrs st') = 2)"
proof -
  have a: "BLE_ANCS_NB_OF_ATTRS example_h \<le> 9"
    by (simp add: example_h_def)
  have c: "spec_fetch_command example_h (m_ancs_attr_list example_fetching) 0x01020304
             = [0, 4, 3, 2, 1, 1, 2, 0, 2, 4, 0]"
    by code_simp
  have k: "spec_kind_bytes example_h (m_ancs_attr_list example_fetching) = 2"
    by code_simp
  have v: "handle_value (control_point (m_service example_fetching)) = 0"
    "ancs_conn_handle example_fetching = 0" "BLE_GATT_OP_WRITE_REQ example_h = 1"
    by code_simp+
  show ?thesis
    using a fetch_command_layout [OF a, of "\<lambda>_. NRF_SUCCESS" example_fetching "0x01020304"]
    by (simp add: c k v)
qed

subsection \<open>Registration and the request\<close>

text \<open>
  C9. A null buffer is refused with \<open>NRF_ERROR_NULL\<close>, a length of 0 or above
  \<open>BLE_ANCS_ATTR_DATA_MAX\<close> with \<open>NRF_ERROR_INVALID_LENGTH\<close>, and the state (so the whole
  registry) is as before. Otherwise the call returns \<open>NRF_SUCCESS\<close>, the entry of the kind
  has the flag set and holds the length and the buffer, and the other entries are as
  before.
\<close>

theorem attr_add_checks:
  "(p_data = 0 \<longrightarrow> ble_ancs_c_attr_add h st ident p_data n = (NRF_ERROR_NULL, st))
   \<and> (p_data \<noteq> 0 \<and> (n = 0 \<or> BLE_ANCS_ATTR_DATA_MAX h < unat n)
        \<longrightarrow> ble_ancs_c_attr_add h st ident p_data n = (NRF_ERROR_INVALID_LENGTH, st))
   \<and> (p_data \<noteq> 0 \<and> n \<noteq> 0 \<and> unat n \<le> BLE_ANCS_ATTR_DATA_MAX h
        \<longrightarrow> fst (ble_ancs_c_attr_add h st ident p_data n) = NRF_SUCCESS
            \<and> get (m_ancs_attr_list (snd (ble_ancs_c_attr_add h st ident p_data n)) (unat ident))
            \<and> attr_len (m_ancs_attr_list (snd (ble_ancs_c_attr_add h st ident p_data n))
                 (unat ident)) = n
            \<and> p_attr_data (m_ancs_attr_list (snd (ble_ancs_c_attr_add h st ident p_data n))
                 (unat ident)) = p_data
            \<and> (\<forall>k. k \<noteq> unat ident
                  \<longrightarrow> m_ancs_attr_list (snd (ble_ancs_c_attr_add h st ident p_data n)) k
                      = m_ancs_attr_list st k))"
  by (auto simp: ble_ancs_c_attr_add_def)

theorem attr_add_checks_witness:
  "ble_ancs_c_attr_add example_h zero_state 1 0 16 = (NRF_ERROR_NULL, zero_state)
   \<and> ble_ancs_c_attr_add example_h zero_state 1 100 0 = (NRF_ERROR_INVALID_LENGTH, zero_state)
   \<and> ble_ancs_c_attr_add example_h zero_state 1 100 33 = (NRF_ERROR_INVALID_LENGTH, zero_state)
   \<and> fst (ble_ancs_c_attr_add example_h zero_state 1 100 32) = NRF_SUCCESS
   \<and> get (m_ancs_attr_list (snd (ble_ancs_c_attr_add example_h zero_state 1 100 32)) (unat (1 :: u32)))
   \<and> attr_len (m_ancs_attr_list (snd (ble_ancs_c_attr_add example_h zero_state 1 100 32))
        (unat (1 :: u32))) = 32
   \<and> p_attr_data (m_ancs_attr_list (snd (ble_ancs_c_attr_add example_h zero_state 1 100 32))
        (unat (1 :: u32))) = 100"
proof -
  have m: "BLE_ANCS_ATTR_DATA_MAX example_h = 32"
    by (simp add: example_h_def)
  show ?thesis
    using attr_add_checks [where p_data = 0 and h = example_h and st = zero_state
          and ident = 1 and n = 16]
      attr_add_checks [where p_data = 100 and h = example_h and st = zero_state
          and ident = 1 and n = 0]
      attr_add_checks [where p_data = 100 and h = example_h and st = zero_state
          and ident = 1 and n = 33]
      attr_add_checks [where p_data = 100 and h = example_h and st = zero_state
          and ident = 1 and n = 32]
    by (simp add: m)
qed

text \<open>
  C8. A notification whose event identifier or category identifier is not below the
  number of enumerators is refused with \<open>NRF_ERROR_INVALID_PARAM\<close> and the state is as
  before: nothing has been put into the transmit buffer, the SoftDevice has not been
  called, the parse state is untouched. For a notification in range (and a registry of at
  most nine entries, so that the command fits) the call returns \<open>NRF_SUCCESS\<close>, the fetch
  command for the notification's UID is in the slot at the fill cursor, the cursor has
  advanced and the parser is back in the header phase.
\<close>

theorem request_attrs_checks_format:
  "(BLE_ANCS_NB_OF_EVT_ID h \<le> evt_id n \<or> BLE_ANCS_NB_OF_CATEGORY_ID h \<le> category_id n
      \<longrightarrow> ble_ancs_c_request_attrs h sd st n = Some (NRF_ERROR_INVALID_PARAM, st))
   \<and> (evt_id n < BLE_ANCS_NB_OF_EVT_ID h \<and> category_id n < BLE_ANCS_NB_OF_CATEGORY_ID h
        \<and> BLE_ANCS_NB_OF_ATTRS h \<le> 9
      \<longrightarrow> (\<exists>st'. ble_ancs_c_request_attrs h sd st n = Some (NRF_SUCCESS, st')
             \<and> m_tx_insert_index st' = (m_tx_insert_index st + 1) AND TX_BUFFER_MASK
             \<and> tx_request (m_tx_buffer st' (unat (m_tx_insert_index st)))
                 = Sd_ble_gattc_write (ancs_conn_handle st)
                     \<lparr>write_op = BLE_GATT_OP_WRITE_REQ h,
                      handle = handle_value (control_point (m_service st)), offset = 0,
                      len = of_nat (length (spec_fetch_command h (m_ancs_attr_list st)
                                              (notif_uid n)))\<rparr>
                     (spec_fetch_command h (m_ancs_attr_list st) (notif_uid n))
             \<and> m_parse_state st' = COMMAND_ID_AND_NOTIF_UID))"
proof -
  have bad: "ble_ancs_c_request_attrs h sd st n = Some (NRF_ERROR_INVALID_PARAM, st)"
    if "BLE_ANCS_NB_OF_EVT_ID h \<le> evt_id n \<or> BLE_ANCS_NB_OF_CATEGORY_ID h \<le> category_id n"
    using that
    by (auto simp: ble_ancs_c_request_attrs_def ble_ancs_verify_notification_format_def)
  have good: "\<exists>st'. ble_ancs_c_request_attrs h sd st n = Some (NRF_SUCCESS, st')
             \<and> m_tx_insert_index st' = (m_tx_insert_index st + 1) AND TX_BUFFER_MASK
             \<and> tx_request (m_tx_buffer st' (unat (m_tx_insert_index st)))
                 = Sd_ble_gattc_write (ancs_conn_handle st)
                     \<lparr>write_op = BLE_GATT_OP_WRITE_REQ h,
                      handle = handle_value (control_point (m_service st)), offset = 0,
                      len = of_nat (length (spec_fetch_command h (m_ancs_attr_list st)
                                              (notif_uid n)))\<rparr>
                     (spec_fetch_command h (m_ancs_attr_list st) (notif_uid n))
             \<and> m_parse_state st' = COMMAND_ID_AND_NOTIF_UID"
    if r: "evt_id n < BLE_ANCS_NB_OF_EVT_ID h" "category_id n < BLE_ANCS_NB_OF_CATEGORY_ID h"
      and nb: "BLE_ANCS_NB_OF_ATTRS h \<le> 9"
  proof -
    have fit: "length (spec_fetch_command h (m_ancs_attr_list st) (notif_uid n))
                 \<le> WRITE_MESSAGE_LENGTH"
      using nb by (rule spec_fetch_command_length)
    have ok: "ble_ancs_verify_notification_format h n = NRF_SUCCESS"
      using r by (simp add: ble_ancs_verify_notification_format_def not_le)
    show ?thesis
      by (simp add: ble_ancs_c_request_attrs_def ok ble_ancs_get_notif_attrs_eq [OF fit]
          tx_request_fetch [OF fit])
  qed
  from bad good show ?thesis
    by blast
qed

theorem request_attrs_checks_format_witness:
  "BLE_ANCS_NB_OF_EVT_ID example_h \<le> evt_id ((notif zero_evt)\<lparr>evt_id := 3\<rparr>)
   \<and> ble_ancs_c_request_attrs example_h (\<lambda>_. NRF_SUCCESS) example_queued
        ((notif zero_evt)\<lparr>evt_id := 3\<rparr>)
       = Some (NRF_ERROR_INVALID_PARAM, example_queued)
   \<and> BLE_ANCS_NB_OF_CATEGORY_ID example_h \<le> category_id ((notif zero_evt)\<lparr>category_id := 12\<rparr>)
   \<and> ble_ancs_c_request_attrs example_h (\<lambda>_. NRF_SUCCESS) example_queued
        ((notif zero_evt)\<lparr>category_id := 12\<rparr>)
       = Some (NRF_ERROR_INVALID_PARAM, example_queued)
   \<and> evt_id ((notif zero_evt)\<lparr>evt_id := 2, category_id := 11, notif_uid := 7\<rparr>)
       < BLE_ANCS_NB_OF_EVT_ID example_h
   \<and> category_id ((notif zero_evt)\<lparr>evt_id := 2, category_id := 11, notif_uid := 7\<rparr>)
       < BLE_ANCS_NB_OF_CATEGORY_ID example_h
   \<and> BLE_ANCS_NB_OF_ATTRS example_h \<le> 9
   \<and> (\<exists>st'. ble_ancs_c_request_attrs example_h (\<lambda>_. NRF_SUCCESS) example_queued
               ((notif zero_evt)\<lparr>evt_id := 2, category_id := 11, notif_uid := 7\<rparr>)
              = Some (NRF_SUCCESS, st')
          \<and> m_tx_insert_index st' = 2
          \<and> tx_request (m_tx_buffer st' 1)
              = Sd_ble_gattc_write 0 \<lparr>write_op = 1, handle = 0, offset = 0, len = 5\<rparr>
                  [0, 7, 0, 0, 0]
          \<and> m_parse_state st' = COMMAND_ID_AND_NOTIF_UID)"
proof -
  have a: "BLE_ANCS_NB_OF_EVT_ID example_h = 3" "BLE_ANCS_NB_OF_CATEGORY_ID example_h = 12"
    "BLE_ANCS_NB_OF_ATTRS example_h = 8" "BLE_GATT_OP_WRITE_REQ example_h = 1"
    by (simp_all add: example_h_def)
  have q: "m_tx_insert_index example_queued = 1" "ancs_conn_handle example_queued = 0"
    "handle_value (control_point (m_service example_queued)) = 0"
    by code_simp+
  have c: "spec_fetch_command example_h (m_ancs_attr_list example_queued) 7 = [0, 7, 0, 0, 0]"
    by code_simp
  have m: "2 AND TX_BUFFER_MASK = (2 :: u32)"
    by (simp add: TX_BUFFER_MASK_def)
  show ?thesis
    using
      request_attrs_checks_format [where h = example_h and n = "(notif zero_evt)\<lparr>evt_id := 3\<rparr>"
        and sd = "\<lambda>_. NRF_SUCCESS" and st = example_queued]
      request_attrs_checks_format [where h = example_h
        and n = "(notif zero_evt)\<lparr>category_id := 12\<rparr>"
        and sd = "\<lambda>_. NRF_SUCCESS" and st = example_queued]
      request_attrs_checks_format [where h = example_h
        and n = "(notif zero_evt)\<lparr>evt_id := 2, category_id := 11, notif_uid := 7\<rparr>"
        and sd = "\<lambda>_. NRF_SUCCESS" and st = example_queued]
    by (simp add: a q c m zero_evt_def)
qed

subsection \<open>Enqueueing\<close>

lemma tx_buffer_process_index_bound:
  "unat (m_tx_index st) < TX_BUFFER_SIZE
   \<Longrightarrow> unat (m_tx_index (tx_buffer_process sd st)) < TX_BUFFER_SIZE"
  by (simp add: tx_buffer_process_index mask_bound)

lemma params_all:
  "(p :: ble_gattc_write_params_t)\<lparr>handle := a, len := b, offset := c, write_op := d\<rparr>
     = \<lparr>write_op = d, handle = a, offset = c, len = b\<rparr>"
  by (cases p) simp

lemma write_req_all:
  "(r :: write_params_t)\<lparr>gattc_params := q, gattc_value := v\<rparr>
     = \<lparr>gattc_value = v, gattc_params = q\<rparr>"
  by (cases r) simp

lemma cccd_configure_eq:
  "cccd_configure h sd st c hv en =
    (NRF_SUCCESS, tx_buffer_process sd
      (st\<lparr>m_tx_insert_index := (m_tx_insert_index st + 1) AND TX_BUFFER_MASK,
          m_tx_buffer := (m_tx_buffer st)(unat (m_tx_insert_index st) :=
            (m_tx_buffer st (unat (m_tx_insert_index st)))
              \<lparr>write_req :=
                 \<lparr>gattc_value =
                    store_bytes (gattc_value (write_req (m_tx_buffer st (unat (m_tx_insert_index st)))))
                      0 [LSB_16 (if en then BLE_CCCD_NOTIFY_BIT_MASK else 0),
                         MSB_16 (if en then BLE_CCCD_NOTIFY_BIT_MASK else 0)],
                  gattc_params =
                    \<lparr>write_op = BLE_GATT_OP_WRITE_REQ h, handle = hv, offset = 0, len = 2\<rparr>\<rparr>,
               conn_handle := c, msg_type := WRITE_REQ\<rparr>)\<rparr>))"
proof -
  have two: "v(0 := x, Suc 0 := y) = store_bytes v 0 [x, y]" for v :: "nat \<Rightarrow> u8" and x y
    by (auto simp: store_bytes_def fun_eq_iff less_Suc_eq)
  show ?thesis
    unfolding cccd_configure_def
    by (simp add: Let_def two params_all write_req_all)
qed

text \<open>
  C10. Both ways of enqueueing return \<open>NRF_SUCCESS\<close> whatever the state of the queue: the
  fill cursor becomes its successor masked with \<open>TX_BUFFER_MASK\<close>, so it is below
  \<open>TX_BUFFER_SIZE\<close>; the send cursor stays below \<open>TX_BUFFER_SIZE\<close> when it was; and the slot
  at the old fill cursor holds the new command, whatever it held before and wherever the
  send cursor is. No case returns an error for a full queue. (For the fetch the registry
  has at most nine entries, so that the command fits into the message.)
\<close>

theorem enqueue_never_refuses:
  "fst (cccd_configure h sd st c hv en) = NRF_SUCCESS
   \<and> m_tx_insert_index (snd (cccd_configure h sd st c hv en))
       = (m_tx_insert_index st + 1) AND TX_BUFFER_MASK
   \<and> unat (m_tx_insert_index (snd (cccd_configure h sd st c hv en))) < TX_BUFFER_SIZE
   \<and> (unat (m_tx_index st) < TX_BUFFER_SIZE
        \<longrightarrow> unat (m_tx_index (snd (cccd_configure h sd st c hv en))) < TX_BUFFER_SIZE)
   \<and> tx_request (m_tx_buffer (snd (cccd_configure h sd st c hv en)) (unat (m_tx_insert_index st)))
       = Sd_ble_gattc_write c
           \<lparr>write_op = BLE_GATT_OP_WRITE_REQ h, handle = hv, offset = 0, len = 2\<rparr>
           [LSB_16 (if en then BLE_CCCD_NOTIFY_BIT_MASK else 0),
            MSB_16 (if en then BLE_CCCD_NOTIFY_BIT_MASK else 0)]
   \<and> (BLE_ANCS_NB_OF_ATTRS h \<le> 9
        \<longrightarrow> (\<exists>st'. ble_ancs_get_notif_attrs h sd st uid = Some (NRF_SUCCESS, st')
               \<and> m_tx_insert_index st' = (m_tx_insert_index st + 1) AND TX_BUFFER_MASK
               \<and> unat (m_tx_insert_index st') < TX_BUFFER_SIZE
               \<and> (unat (m_tx_index st) < TX_BUFFER_SIZE
                    \<longrightarrow> unat (m_tx_index st') < TX_BUFFER_SIZE)
               \<and> tx_request (m_tx_buffer st' (unat (m_tx_insert_index st)))
                   = Sd_ble_gattc_write (ancs_conn_handle st)
                       \<lparr>write_op = BLE_GATT_OP_WRITE_REQ h,
                        handle = handle_value (control_point (m_service st)), offset = 0,
                        len = of_nat (length (spec_fetch_command h (m_ancs_attr_list st) uid))\<rparr>
                       (spec_fetch_command h (m_ancs_attr_list st) uid)))"
proof -
  have two: "tx_request (m\<lparr>write_req := \<lparr>gattc_value = store_bytes v 0 [x, y],
                 gattc_params = \<lparr>write_op = w, handle = hv, offset = 0, len = 2\<rparr>\<rparr>,
               conn_handle := c, msg_type := WRITE_REQ\<rparr>)
             = Sd_ble_gattc_write c \<lparr>write_op = w, handle = hv, offset = 0, len = 2\<rparr> [x, y]"
    for m v x y w
    using tx_request_fetch [where cmd = "[x, y]" and m = m and v = v and w = w and hv = hv
        and c = c]
    by (simp add: WRITE_MESSAGE_LENGTH_def)
  have cccd: "fst (cccd_configure h sd st c hv en) = NRF_SUCCESS
   \<and> m_tx_insert_index (snd (cccd_configure h sd st c hv en))
       = (m_tx_insert_index st + 1) AND TX_BUFFER_MASK
   \<and> unat (m_tx_insert_index (snd (cccd_configure h sd st c hv en))) < TX_BUFFER_SIZE
   \<and> (unat (m_tx_index st) < TX_BUFFER_SIZE
        \<longrightarrow> unat (m_tx_index (snd (cccd_configure h sd st c hv en))) < TX_BUFFER_SIZE)
   \<and> tx_request (m_tx_buffer (snd (cccd_configure h sd st c hv en)) (unat (m_tx_insert_index st)))
       = Sd_ble_gattc_write c
           \<lparr>write_op = BLE_GATT_OP_WRITE_REQ h, handle = hv, offset = 0, len = 2\<rparr>
           [LSB_16 (if en then BLE_CCCD_NOTIFY_BIT_MASK else 0),
            MSB_16 (if en then BLE_CCCD_NOTIFY_BIT_MASK else 0)]"
    by (simp add: cccd_configure_eq mask_bound tx_buffer_process_index_bound two)
  have fetch: "\<exists>st'. ble_ancs_get_notif_attrs h sd st uid = Some (NRF_SUCCESS, st')
               \<and> m_tx_insert_index st' = (m_tx_insert_index st + 1) AND TX_BUFFER_MASK
               \<and> unat (m_tx_insert_index st') < TX_BUFFER_SIZE
               \<and> (unat (m_tx_index st) < TX_BUFFER_SIZE
                    \<longrightarrow> unat (m_tx_index st') < TX_BUFFER_SIZE)
               \<and> tx_request (m_tx_buffer st' (unat (m_tx_insert_index st)))
                   = Sd_ble_gattc_write (ancs_conn_handle st)
                       \<lparr>write_op = BLE_GATT_OP_WRITE_REQ h,
                        handle = handle_value (control_point (m_service st)), offset = 0,
                        len = of_nat (length (spec_fetch_command h (m_ancs_attr_list st) uid))\<rparr>
                       (spec_fetch_command h (m_ancs_attr_list st) uid)"
    if nb: "BLE_ANCS_NB_OF_ATTRS h \<le> 9"
  proof -
    have fit: "length (spec_fetch_command h (m_ancs_attr_list st) uid) \<le> WRITE_MESSAGE_LENGTH"
      using nb by (rule spec_fetch_command_length)
    show ?thesis
      by (simp add: ble_ancs_get_notif_attrs_eq [OF fit] tx_request_fetch [OF fit]
          mask_bound tx_buffer_process_index_bound)
  qed
  from cccd fetch show ?thesis
    by blast
qed

lemma enable_refused:
  "snd (ble_ancs_c_notif_source_notif_enable h (\<lambda>_. NRF_ERROR_OTHER k) st) =
     tx_buffer_process (\<lambda>_. NRF_ERROR_OTHER k)
      (st\<lparr>m_tx_insert_index := (m_tx_insert_index st + 1) AND TX_BUFFER_MASK,
          m_tx_buffer := (m_tx_buffer st)(unat (m_tx_insert_index st) :=
            (m_tx_buffer st (unat (m_tx_insert_index st)))
              \<lparr>write_req :=
                 \<lparr>gattc_value =
                    store_bytes (gattc_value (write_req (m_tx_buffer st (unat (m_tx_insert_index st)))))
                      0 [LSB_16 BLE_CCCD_NOTIFY_BIT_MASK, MSB_16 BLE_CCCD_NOTIFY_BIT_MASK],
                  gattc_params =
                    \<lparr>write_op = BLE_GATT_OP_WRITE_REQ h,
                     handle = handle_cccd (notif_source (m_service st)), offset = 0, len = 2\<rparr>\<rparr>,
               conn_handle := ancs_conn_handle st, msg_type := WRITE_REQ\<rparr>)\<rparr>)"
  by (simp add: ble_ancs_c_notif_source_notif_enable_def cccd_configure_eq)

lemma enable_refused_fields:
  "m_tx_index (snd (ble_ancs_c_notif_source_notif_enable h (\<lambda>_. NRF_ERROR_OTHER k) st))
     = m_tx_index st"
  "m_tx_insert_index (snd (ble_ancs_c_notif_source_notif_enable h (\<lambda>_. NRF_ERROR_OTHER k) st))
     = (m_tx_insert_index st + 1) AND TX_BUFFER_MASK"
  "ancs_conn_handle (snd (ble_ancs_c_notif_source_notif_enable h (\<lambda>_. NRF_ERROR_OTHER k) st))
     = ancs_conn_handle st"
  "m_service (snd (ble_ancs_c_notif_source_notif_enable h (\<lambda>_. NRF_ERROR_OTHER k) st))
     = m_service st"
  "m_ancs_attr_list (snd (ble_ancs_c_notif_source_notif_enable h (\<lambda>_. NRF_ERROR_OTHER k) st))
     = m_ancs_attr_list st"
  "length (sd_calls (snd (ble_ancs_c_notif_source_notif_enable h (\<lambda>_. NRF_ERROR_OTHER k) st)))
     = length (sd_calls st)
       + (if m_tx_index st \<noteq> (m_tx_insert_index st + 1) AND TX_BUFFER_MASK then 1 else 0)"
  "tx_request (m_tx_buffer
      (snd (ble_ancs_c_notif_source_notif_enable h (\<lambda>_. NRF_ERROR_OTHER k) st)) j)
     = (if j = unat (m_tx_insert_index st)
        then Sd_ble_gattc_write (ancs_conn_handle st)
               \<lparr>write_op = BLE_GATT_OP_WRITE_REQ h,
                handle = handle_cccd (notif_source (m_service st)), offset = 0, len = 2\<rparr>
               [LSB_16 BLE_CCCD_NOTIFY_BIT_MASK, MSB_16 BLE_CCCD_NOTIFY_BIT_MASK]
        else tx_request (m_tx_buffer st j))"
proof -
  have two: "tx_request (m\<lparr>write_req := \<lparr>gattc_value = store_bytes v 0 [x, y],
                 gattc_params = \<lparr>write_op = w, handle = hv, offset = 0, len = 2\<rparr>\<rparr>,
               conn_handle := c, msg_type := WRITE_REQ\<rparr>)
             = Sd_ble_gattc_write c \<lparr>write_op = w, handle = hv, offset = 0, len = 2\<rparr> [x, y]"
    for m v x y w hv c
    using tx_request_fetch [where cmd = "[x, y]" and m = m and v = v and w = w and hv = hv
        and c = c]
    by (simp add: WRITE_MESSAGE_LENGTH_def)
  show "tx_request (m_tx_buffer
      (snd (ble_ancs_c_notif_source_notif_enable h (\<lambda>_. NRF_ERROR_OTHER k) st)) j)
     = (if j = unat (m_tx_insert_index st)
        then Sd_ble_gattc_write (ancs_conn_handle st)
               \<lparr>write_op = BLE_GATT_OP_WRITE_REQ h,
                handle = handle_cccd (notif_source (m_service st)), offset = 0, len = 2\<rparr>
               [LSB_16 BLE_CCCD_NOTIFY_BIT_MASK, MSB_16 BLE_CCCD_NOTIFY_BIT_MASK]
        else tx_request (m_tx_buffer st j))"
    by (simp add: enable_refused two)
qed (simp_all add: enable_refused tx_buffer_process_def Let_def)

lemma funpow_8: "(f ^^ 8) x = f (f (f (f (f (f (f (f x)))))))"
  by (simp add: eval_nat_numeral)

lemma wrapped_facts:
  "m_tx_insert_index example_wrapped = 0"
  "m_tx_index example_wrapped = 0"
  "length (sd_calls example_wrapped) = 7"
  "tx_request (m_tx_buffer example_wrapped 0)
       = Sd_ble_gattc_write 0 \<lparr>write_op = 1, handle = 0, offset = 0, len = 2\<rparr> [1, 0]"
  "ancs_conn_handle example_wrapped = 0"
  "handle_value (control_point (m_service example_wrapped)) = 0"
  "m_ancs_attr_list example_wrapped = m_ancs_attr_list zero_state"
  by (simp_all add: example_wrapped_def funpow_8 enable_refused_fields
      zero_state_def example_h_def TX_BUFFER_MASK_def LSB_16_def MSB_16_def
      BLE_CCCD_NOTIFY_BIT_MASK_def)

theorem enqueue_never_refuses_witness:
  "m_tx_insert_index example_wrapped = 0 \<and> m_tx_index example_wrapped = 0
   \<and> length (sd_calls example_wrapped) = 7
   \<and> tx_request (m_tx_buffer example_wrapped 0)
       = Sd_ble_gattc_write 0 \<lparr>write_op = 1, handle = 0, offset = 0, len = 2\<rparr> [1, 0]
   \<and> fst (cccd_configure example_h (\<lambda>_. NRF_ERROR_OTHER 17) example_wrapped 0 0 False)
       = NRF_SUCCESS
   \<and> tx_request (m_tx_buffer
        (snd (cccd_configure example_h (\<lambda>_. NRF_ERROR_OTHER 17) example_wrapped 0 0 False)) 0)
       = Sd_ble_gattc_write 0 \<lparr>write_op = 1, handle = 0, offset = 0, len = 2\<rparr> [0, 0]
   \<and> unat (m_tx_index example_wrapped) < TX_BUFFER_SIZE
   \<and> unat (m_tx_index
        (snd (cccd_configure example_h (\<lambda>_. NRF_ERROR_OTHER 17) example_wrapped 0 0 False)))
       < TX_BUFFER_SIZE
   \<and> BLE_ANCS_NB_OF_ATTRS example_h \<le> 9
   \<and> (\<exists>st'. ble_ancs_get_notif_attrs example_h (\<lambda>_. NRF_ERROR_OTHER 17) example_wrapped 7
              = Some (NRF_SUCCESS, st')
          \<and> m_tx_insert_index st' = 1
          \<and> unat (m_tx_index st') < TX_BUFFER_SIZE
          \<and> tx_request (m_tx_buffer st' 0)
              = Sd_ble_gattc_write 0 \<lparr>write_op = 1, handle = 0, offset = 0, len = 5\<rparr>
                  [0, 7, 0, 0, 0])"
proof -
  have a: "BLE_ANCS_NB_OF_ATTRS example_h = 8" "BLE_GATT_OP_WRITE_REQ example_h = 1"
    by (simp_all add: example_h_def)
  have c: "spec_fetch_command example_h (m_ancs_attr_list zero_state) 7 = [0, 7, 0, 0, 0]"
    by code_simp
  have m: "1 AND TX_BUFFER_MASK = (1 :: u32)" "TX_BUFFER_SIZE = 8"
    by (simp_all add: TX_BUFFER_MASK_def TX_BUFFER_SIZE_def)
  have l: "LSB_16 0 = 0" "MSB_16 0 = 0"
    by (simp_all add: LSB_16_def MSB_16_def)
  show ?thesis
    using enqueue_never_refuses [where h = example_h and sd = "\<lambda>_. NRF_ERROR_OTHER 17"
        and st = example_wrapped and c = 0 and hv = 0 and en = False and uid = 7]
    by (simp add: a wrapped_facts c m l) blast
qed

subsection \<open>Splitting a response into packets\<close>

lemma parse_switch_index_mono:
  "i < n \<Longrightarrow> i \<le> snd (parse_switch h p n (st, i))"
proof (cases "m_parse_state st")
  case ATTR_DATA
  then show ?thesis
    by (simp add: parse_switch_def Let_def evt_handler_def)
qed (simp_all add: parse_switch_def Let_def)

lemma uint32_decode_agree:
  "(\<And>k. i \<le> k \<Longrightarrow> k < i + 4 \<Longrightarrow> q k = p k) \<Longrightarrow> uint32_decode q i = uint32_decode p i"
  by (simp add: uint32_decode_def)

lemma parse_switch_len:
  "m_parse_state st \<noteq> DONE \<Longrightarrow> parse_switch h p n' (st, i) = parse_switch h p n (st, i)"
  by (cases "m_parse_state st") (simp_all add: parse_switch_def split del: if_split)

lemma parse_switch_cong:
  assumes "q i = p i"
    and "m_parse_state st = COMMAND_ID_AND_NOTIF_UID
        \<Longrightarrow> uint32_decode q (i + 1) = uint32_decode p (i + 1)"
  shows "parse_switch h q n (st, i) = parse_switch h p n (st, i)"
proof (cases "m_parse_state st")
  case COMMAND_ID_AND_NOTIF_UID
  then have "uint32_decode q (Suc i) = uint32_decode p (Suc i)"
    using assms(2) by simp
  with COMMAND_ID_AND_NOTIF_UID assms(1) show ?thesis
    by (simp add: parse_switch_def Let_def split del: if_split cong del: if_weak_cong)
qed (use assms(1) in \<open>simp_all add: parse_switch_def Let_def split del: if_split
       cong del: if_weak_cong\<close>)

lemma parse_switch_header_index:
  "m_parse_state st = COMMAND_ID_AND_NOTIF_UID \<Longrightarrow> snd (parse_switch h p n (st, i)) = i + 5"
  by (simp add: parse_switch_header)

lemma parse_switch_agree:
  assumes "i < n" and "snd (parse_switch h p n (st, i)) \<le> n" and "\<forall>k<n. q k = p k"
    and "m_parse_state st \<noteq> DONE"
  shows "parse_switch h q n' (st, i) = parse_switch h p n (st, i)"
proof -
  have a: "q i = p i"
    using assms(1,3) by simp
  have b: "uint32_decode q (i + 1) = uint32_decode p (i + 1)"
    if "m_parse_state st = COMMAND_ID_AND_NOTIF_UID"
  proof -
    have "i + 5 \<le> n"
      using assms(2) that by (simp add: parse_switch_header_index)
    then show ?thesis
      using assms(3) by (intro uint32_decode_agree) simp
  qed
  have "parse_switch h q n' (st, i) = parse_switch h p n' (st, i)"
    using a b by (rule parse_switch_cong)
  also have "\<dots> = parse_switch h p n (st, i)"
    using assms(4) by (rule parse_switch_len)
  finally show ?thesis .
qed

text \<open>
  A run on a packet that ends with \<open>index\<close> at the packet's end is the first part of the
  run on any longer packet that starts with the same bytes.
\<close>

lemma parse_loop_extend:
  assumes "parse_loop h p n c = Some y"
  shows "snd c \<le> snd y
         \<and> (snd y = n \<longrightarrow>
              (\<forall>q n'. (\<forall>k<n. q k = p k) \<longrightarrow> n \<le> n'
                 \<longrightarrow> parse_loop h q n' c = parse_loop h q n' y))"
proof (induction rule: parse_loop.raw_induct [OF _ assms])
  case (1 loop h p n c y)
  show ?case
  proof (cases "snd c < n")
    case False
    with "1.hyps" show ?thesis by simp
  next
    case True
    obtain st i where c: "c = (st, i)" by (cases c)
    let ?c' = "parse_switch h p n (st, i)"
    have run: "loop h p n ?c' = Some y"
      using "1.hyps" True c by simp
    have ih: "snd ?c' \<le> snd y"
      "snd y = n \<Longrightarrow> \<forall>k<n. q k = p k \<Longrightarrow> n \<le> n'
         \<Longrightarrow> parse_loop h q n' ?c' = parse_loop h q n' y" for q n'
      using "1.IH" [OF run] by blast+
    have lt: "i < n" using True c by simp
    have mono: "i \<le> snd ?c'"
      using lt by (rule parse_switch_index_mono)
    have ext: "parse_loop h q n' c = parse_loop h q n' y"
      if e: "snd y = n" and ag: "\<forall>k<n. q k = p k" and le: "n \<le> n'" for q n'
    proof (cases "m_parse_state st = DONE")
      case True
      then have c': "?c' = (st, n)"
        by (rule parse_switch_DONE)
      have "parse_loop h q n' (st, n) = Some (st, n')"
      proof (cases "n < n'")
        case True
        with \<open>m_parse_state st = DONE\<close> show ?thesis
          by (simp add: parse_loop_DONE)
      next
        case False
        with le show ?thesis by (simp add: parse_loop_exit)
      qed
      moreover have "parse_loop h q n' (st, i) = Some (st, n')"
        using True lt le by (simp add: parse_loop_DONE)
      ultimately show ?thesis
        using ih(2) [OF e ag le] c c' by simp
    next
      case False
      have "snd ?c' \<le> n"
        using ih(1) e by simp
      with lt ag False have "parse_switch h q n' (st, i) = ?c'"
        by (intro parse_switch_agree)
      then have "parse_loop h q n' (st, i) = parse_loop h q n' ?c'"
        using lt le by (simp add: parse_loop_step)
      then show ?thesis
        using ih(2) [OF e ag le] c by simp
    qed
    from mono ih(1) ext c show ?thesis
      by auto
  qed
qed

lemma uint32_decode_shift:
  "\<forall>k. p' k = q (l + k) \<Longrightarrow> uint32_decode q (l + i) = uint32_decode p' i"
  by (simp add: uint32_decode_def add.assoc)

lemma parse_switch_shift:
  assumes "\<forall>k. p' k = q (l + k)"
  shows "parse_switch h q (l + n') (st, l + i)
         = (fst (parse_switch h p' n' (st, i)), l + snd (parse_switch h p' n' (st, i)))"
proof (cases "m_parse_state st")
  case COMMAND_ID_AND_NOTIF_UID
  have "uint32_decode q (Suc (l + i)) = uint32_decode p' (Suc i)"
    using uint32_decode_shift [OF assms, of "Suc i"] by simp
  with COMMAND_ID_AND_NOTIF_UID show ?thesis
    by (simp add: parse_switch_header)
next
  case ATTR_ID
  with assms show ?thesis
    by (simp add: parse_switch_def Let_def)
next
  case ATTR_LEN1
  with assms show ?thesis
    by (simp add: parse_switch_def Let_def)
next
  case ATTR_LEN2
  with assms show ?thesis
    by (simp add: parse_switch_def Let_def)
next
  case ATTR_DATA
  with assms show ?thesis
    by (simp add: parse_switch_def Let_def)
next
  case DONE
  then show ?thesis
    by (simp add: parse_switch_def)
qed

text \<open>A run on the memory behind the first \<open>l\<close> bytes is a run on the whole from \<open>l\<close> on.\<close>

lemma parse_loop_shift:
  assumes "parse_loop h p' n' c = Some y"
  shows "\<forall>q l. (\<forall>k. p' k = q (l + k))
           \<longrightarrow> parse_loop h q (l + n') (fst c, l + snd c) = Some (fst y, l + snd y)"
proof (induction rule: parse_loop.raw_induct [OF _ assms])
  case (1 loop h p' n' c y)
  show ?case
  proof (intro allI impI)
    fix q l
    assume ag: "\<forall>k. p' k = q (l + k)"
    obtain st i where c: "c = (st, i)" by (cases c)
    show "parse_loop h q (l + n') (fst c, l + snd c) = Some (fst y, l + snd y)"
    proof (cases "i < n'")
      case False
      with "1.hyps" c have "y = (st, i)"
        by simp
      with False c show ?thesis
        by (simp add: parse_loop_exit)
    next
      case True
      let ?c' = "parse_switch h p' n' (st, i)"
      have run: "loop h p' n' ?c' = Some y"
        using "1.hyps" True c by simp
      have "parse_loop h q (l + n') (fst ?c', l + snd ?c') = Some (fst y, l + snd y)"
        using "1.IH" [OF run] ag by blast
      moreover have "parse_loop h q (l + n') (st, l + i)
                     = parse_loop h q (l + n') (parse_switch h q (l + n') (st, l + i))"
        using True by (simp add: parse_loop_step)
      ultimately show ?thesis
        using c by (simp add: parse_switch_shift [OF ag])
    qed
  qed
qed

lemma map_upt_append_split:
  assumes "map q [0..<N] = map p [0..<l] @ rest"
  shows "l \<le> N" and "\<forall>k<l. q k = p k" and "map (\<lambda>k. q (l + k)) [0..<N - l] = rest"
proof -
  have len: "N = l + length rest"
    using arg_cong [OF assms, of length] by simp
  then show "l \<le> N" by simp
  show "\<forall>k<l. q k = p k"
  proof (intro allI impI)
    fix k assume k: "k < l"
    then have "map q [0..<N] ! k = (map p [0..<l] @ rest) ! k"
      using assms by simp
    with k len show "q k = p k"
      by (simp add: nth_append)
  qed
  show "map (\<lambda>k. q (l + k)) [0..<N - l] = rest"
  proof (rule nth_equalityI)
    show "length (map (\<lambda>k. q (l + k)) [0..<N - l]) = length rest"
      using len by simp
  next
    fix k assume "k < length (map (\<lambda>k. q (l + k)) [0..<N - l])"
    then have k: "k < length rest" using len by simp
    have "map q [0..<N] ! (l + k) = (map p [0..<l] @ rest) ! (l + k)"
      using assms by simp
    with k len show "map (\<lambda>k. q (l + k)) [0..<N - l] ! k = rest ! k"
      by (simp add: nth_append)
  qed
qed

lemma on_data_source_single:
  "on_data_source h st [pk] = parse_get_notif_attrs_response h st (fst pk) (snd pk)"
  by (simp split: option.splits)

text \<open>
  C3, amended. A response is split into consecutive packets, and the parser leaves every
  one of them with \<open>index\<close> exactly at the packet's end (so the five header bytes are
  not cut by a packet boundary, and no skip over the rest of a truncated attribute runs
  past the end of a packet). Then the parser returns on every packet, and handing over
  the packets one by one ends in the same state as handing over all the bytes as one
  packet: the same calls of the handler with the same events and the same memory, hence
  the same kinds, lengths and buffer contents.
\<close>

theorem reassembly_when_consumed_exactly:
  assumes "consumed_exactly h st pks"
    and "hvx_bytes whole = concat (map hvx_bytes pks)"
  shows "on_data_source h st pks \<noteq> None
         \<and> on_data_source h st [whole] = on_data_source h st pks"
  using assms
proof (induction pks arbitrary: st whole)
  case Nil
  then have "unat (snd whole) = 0"
    by (simp add: hvx_bytes_def)
  then show ?case
    by (simp add: parse_get_notif_attrs_response_def parse_loop_exit)
next
  case (Cons pk pks)
  let ?l = "unat (snd pk)" and ?N = "unat (snd whole)"
  let ?q = "fst whole" and ?p = "fst pk"
  let ?q' = "\<lambda>k. ?q (?l + k)"
  obtain st1 where run1: "parse_loop h ?p ?l (st, 0) = Some (st1, ?l)"
    and ce: "consumed_exactly h st1 pks"
    using Cons.prems(1) by (auto split: option.splits)
  have bytes: "map ?q [0..<?N] = map ?p [0..<?l] @ concat (map hvx_bytes pks)"
    using Cons.prems(2) by (simp add: hvx_bytes_def [of whole] hvx_bytes_def [of pk])
  note sp = map_upt_append_split [OF bytes]
  have sub: "unat (snd whole - snd pk) = ?N - ?l"
    using sp(1) by (simp add: unat_sub word_le_nat_alt)
  have "hvx_bytes (?q', snd whole - snd pk) = concat (map hvx_bytes pks)"
    using sp(3) by (simp add: hvx_bytes_def [of "(?q', snd whole - snd pk)"] sub)
  from Cons.IH [OF ce this]
  have ih: "on_data_source h st1 pks \<noteq> None"
    "on_data_source h st1 [(?q', snd whole - snd pk)] = on_data_source h st1 pks"
    by blast+
  from ih(1) obtain st2 where tail: "on_data_source h st1 pks = Some st2"
    by blast
  have one: "parse_get_notif_attrs_response h st1 ?q' (snd whole - snd pk) = Some st2"
    using ih(2) tail on_data_source_single [of h st1 "(?q', snd whole - snd pk)"]
    by (simp del: on_data_source.simps)
  from one obtain j where run2: "parse_loop h ?q' (?N - ?l) (st1, 0) = Some (st2, j)"
    by (auto simp: parse_get_notif_attrs_response_def sub)
  have "parse_loop h ?q (?l + (?N - ?l)) (fst (st1, 0 :: nat), ?l + snd (st1, 0 :: nat))
          = Some (fst (st2, j), ?l + snd (st2, j))"
    using parse_loop_shift [OF run2] by blast
  then have run3: "parse_loop h ?q ?N (st1, ?l) = Some (st2, ?l + j)"
    using sp(1) by simp
  have "parse_loop h ?q ?N (st, 0) = parse_loop h ?q ?N (st1, ?l)"
    using parse_loop_extend [OF run1] sp(1,2) by simp
  with run3 have whole: "parse_get_notif_attrs_response h st ?q (snd whole) = Some st2"
    by (simp add: parse_get_notif_attrs_response_def)
  have first: "parse_get_notif_attrs_response h st ?p (snd pk) = Some st1"
    using run1 by (simp add: parse_get_notif_attrs_response_def)
  show ?case
    using whole first tail by simp
qed

theorem reassembly_when_consumed_exactly_witness:
  "consumed_exactly example_h example_fetching
     [packet [0, 1, 0, 0, 0, 1, 4, 0, 65], packet [66, 5, 6, 2, 1], packet [0, 69]]
   \<and> hvx_bytes (packet [0, 1, 0, 0, 0, 1, 4, 0, 65, 66, 5, 6, 2, 1, 0, 69])
       = concat (map hvx_bytes
           [packet [0, 1, 0, 0, 0, 1, 4, 0, 65], packet [66, 5, 6, 2, 1], packet [0, 69]])
   \<and> on_data_source example_h example_fetching
         [packet [0, 1, 0, 0, 0, 1, 4, 0, 65], packet [66, 5, 6, 2, 1], packet [0, 69]] \<noteq> None
   \<and> on_data_source example_h example_fetching
         [packet [0, 1, 0, 0, 0, 1, 4, 0, 65, 66, 5, 6, 2, 1, 0, 69]]
       = on_data_source example_h example_fetching
           [packet [0, 1, 0, 0, 0, 1, 4, 0, 65], packet [66, 5, 6, 2, 1], packet [0, 69]]
   \<and> map_option attribute_events
         (on_data_source example_h example_fetching
            [packet [0, 1, 0, 0, 0, 1, 4, 0, 65], packet [66, 5, 6, 2, 1], packet [0, 69]])
       = Some [(1, 4, [65, 66, 0]), (2, 1, [69, 0, 0, 0, 0])]"
proof -
  have a: "consumed_exactly example_h example_fetching
     [packet [0, 1, 0, 0, 0, 1, 4, 0, 65], packet [66, 5, 6, 2, 1], packet [0, 69]]"
    by code_simp
  have b: "hvx_bytes (packet [0, 1, 0, 0, 0, 1, 4, 0, 65, 66, 5, 6, 2, 1, 0, 69])
       = concat (map hvx_bytes
           [packet [0, 1, 0, 0, 0, 1, 4, 0, 65], packet [66, 5, 6, 2, 1], packet [0, 69]])"
    by code_simp
  have e: "map_option attribute_events
         (on_data_source example_h example_fetching
            [packet [0, 1, 0, 0, 0, 1, 4, 0, 65], packet [66, 5, 6, 2, 1], packet [0, 69]])
       = Some [(1, 4, [65, 66, 0]), (2, 1, [69, 0, 0, 0, 0])]"
    by code_simp
  show ?thesis
    using a b e reassembly_when_consumed_exactly [OF a b]
    by blast
qed

text \<open>
  C3 as stated fails. The response is header, title with length 1, one byte of content.
  As one packet it gives one "attribute received" event. Cut after the first byte, the
  header pass reads the UID from the memory behind the one-byte packet (zeros here), finds
  a mismatch and ends in \<open>DONE\<close>: no event at all.
\<close>

theorem split_inside_header_counterexample:
  "hvx_bytes (packet [0, 1, 0, 0, 0, 1, 1, 0, 65])
     = concat (map hvx_bytes [packet [0], packet [1, 0, 0, 0, 1, 1, 0, 65]])
   \<and> map_option attribute_events
         (on_data_source example_h example_fetching [packet [0, 1, 0, 0, 0, 1, 1, 0, 65]])
       = Some [(1, 1, [65, 0, 0])]
   \<and> map_option attribute_events
         (on_data_source example_h example_fetching
            [packet [0], packet [1, 0, 0, 0, 1, 1, 0, 65]])
       = Some []"
  by code_simp

subsection \<open>A truncated attribute within one packet\<close>

lemma unat_succ_less: "a < (b :: u16) \<Longrightarrow> unat (a + 1) = unat a + 1"
proof -
  assume "a < b"
  then have "unat a < unat b"
    by (simp add: word_less_nat_alt)
  moreover have "unat b < 2 ^ 16"
    using unsigned_less [of b] by simp
  ultimately have "unat a + 1 < 2 ^ 16"
    by simp
  then show ?thesis
    by (simp add: unat_word_ariths)
qed

lemma attr_data_copy_pass:
  assumes ph: "m_parse_state st = ATTR_DATA"
    and lt: "current_attr_index st
               < attr_len (m_ancs_attr_list st (unat (attr_id (attr (evt st)))))"
    and tr: "attr_len (m_ancs_attr_list st (unat (attr_id (attr (evt st)))))
               < evt_attr_len (attr (evt st))"
  shows "parse_switch h p n (st, i) =
           (if current_attr_index st + 1
                 = attr_len (m_ancs_attr_list st (unat (attr_id (attr (evt st)))))
            then (attr_data_done st [p i],
                  i + 1 + unat (evt_attr_len (attr (evt st)) - (current_attr_index st + 1)))
            else (st\<lparr>mem := (mem st)(p_data_dest st + unat (current_attr_index st) := p i),
                     current_attr_index := current_attr_index st + 1\<rparr>, i + 1))"
proof -
  let ?cur = "current_attr_index st"
  let ?cap = "attr_len (m_ancs_attr_list st (unat (attr_id (attr (evt st)))))"
  let ?len = "evt_attr_len (attr (evt st))"
  have u: "unat (?cur + 1) = unat ?cur + 1"
    using lt by (rule unat_succ_less)
  have le: "?cur + 1 \<le> ?cap"
    using lt by (rule inc_le)
  then have ne: "?cur + 1 \<noteq> ?len" and l2: "?cur + 1 < ?len" and l1: "?cur < ?len"
    using tr lt by auto
  have m: "(mem st)(p_data_dest st + unat ?cur := x, Suc (p_data_dest st + unat ?cur) := 0)
             = store_bytes (mem st) (p_data_dest st + unat ?cur) [x, 0]" for x
    by (auto simp: store_bytes_def fun_eq_iff less_Suc_eq)
  show ?thesis
  proof (cases "?cur + 1 = ?cap")
    case True
    then have uc: "unat ?cap = Suc (unat ?cur)"
      using u by simp
    have m': "(mem st)(p_data_dest st + unat ?cur := x, p_data_dest st + unat ?cap := 0)
             = store_bytes (mem st) (p_data_dest st + unat ?cur) [x, 0]" for x
      using m [of x] by (simp add: uc)
    from True ph lt l1 l2 ne show ?thesis
      by (simp add: parse_switch_def Let_def attr_data_done_def evt_handler_def m')
  next
    case False
    with ph lt l1 ne show ?thesis
      by (simp add: parse_switch_def Let_def)
  qed
qed

lemma store_bytes_Cons:
  "store_bytes (v(a := x)) (Suc a) bs = store_bytes v a (x # bs)"
  using store_bytes_append [of v a "[x]" bs] by (simp add: store_bytes_single)

lemma map_upt_first: "map p [i..<i + Suc m] = p i # map p [i + 1..<i + 1 + m]"
  by (simp add: upt_conv_Cons del: upt_Suc)

lemma attr_data_done_step:
  assumes "unat (current_attr_index st + 1) = Suc (unat (current_attr_index st))"
  shows "attr_data_done
           (st\<lparr>mem := (mem st)(p_data_dest st + unat (current_attr_index st) := x),
               current_attr_index := current_attr_index st + 1\<rparr>) bs
         = attr_data_done st (x # bs)"
  by (simp add: attr_data_done_def evt_handler_def assms store_bytes_Cons add.assoc)

text \<open>
  Within one packet: an attribute whose declared length is above the capacity. The bytes
  up to the capacity are copied, the terminator follows them, the handler is called once,
  and the loop goes on in \<open>ATTR_ID\<close> with \<open>index\<close> behind the declared length.
\<close>

lemma attr_data_truncated:
  assumes "m_parse_state st = ATTR_DATA"
    and "current_attr_index st < attr_len (m_ancs_attr_list st (unat (attr_id (attr (evt st)))))"
    and "attr_len (m_ancs_attr_list st (unat (attr_id (attr (evt st)))))
           < evt_attr_len (attr (evt st))"
    and "i + (unat (attr_len (m_ancs_attr_list st (unat (attr_id (attr (evt st))))))
                - unat (current_attr_index st)) \<le> n"
  shows "parse_loop h p n (st, i) =
         parse_loop h p n
           (attr_data_done st
              (map p [i..<i + (unat (attr_len (m_ancs_attr_list st (unat (attr_id (attr (evt st))))))
                               - unat (current_attr_index st))]),
            i + (unat (evt_attr_len (attr (evt st))) - unat (current_attr_index st)))"
  using assms
proof (induction "unat (attr_len (m_ancs_attr_list st (unat (attr_id (attr (evt st))))))
                    - Suc (unat (current_attr_index st))" arbitrary: st i)
  case 0
  let ?cur = "current_attr_index st"
  let ?cap = "attr_len (m_ancs_attr_list st (unat (attr_id (attr (evt st)))))"
  let ?len = "evt_attr_len (attr (evt st))"
  have u: "unat (?cur + 1) = unat ?cur + 1"
    using "0.prems"(2) by (rule unat_succ_less)
  have "unat ?cur < unat ?cap"
    using "0.prems"(2) by (simp add: word_less_nat_alt)
  with "0.hyps" have uc: "unat ?cap = unat ?cur + 1"
    by simp
  with u have eq: "?cur + 1 = ?cap"
    by (simp add: word_unat_eq_iff)
  have "unat (?len - ?cap) = unat ?len - unat ?cap"
    using "0.prems"(3) by (simp add: unat_sub word_le_nat_alt word_less_nat_alt)
  then have idx: "i + 1 + unat (?len - (?cur + 1)) = i + (unat ?len - unat ?cur)"
    using eq uc "0.prems"(3) by (simp add: word_less_nat_alt)
  have lt: "i < n"
    using "0.prems"(4) uc by simp
  have "parse_switch h p n (st, i) = (attr_data_done st [p i], i + (unat ?len - unat ?cur))"
    using attr_data_copy_pass [OF "0.prems"(1-3), of h p n i] eq idx by simp
  then show ?case
    using lt uc by (simp add: parse_loop_step)
next
  case (Suc d)
  let ?cur = "current_attr_index st"
  let ?cap = "attr_len (m_ancs_attr_list st (unat (attr_id (attr (evt st)))))"
  let ?len = "evt_attr_len (attr (evt st))"
  let ?st1 = "st\<lparr>mem := (mem st)(p_data_dest st + unat ?cur := p i),
                 current_attr_index := ?cur + 1\<rparr>"
  have u: "unat (?cur + 1) = Suc (unat ?cur)"
    using unat_succ_less [OF Suc.prems(2)] by simp
  have gap: "unat ?cap - unat ?cur = Suc (Suc d)"
    using Suc.hyps(2) by simp
  then have ne: "?cur + 1 \<noteq> ?cap"
    using u by (auto simp: word_unat_eq_iff)
  have lt1: "?cur + 1 < ?cap"
    using gap u by (simp add: word_less_nat_alt)
  have lt: "i < n"
    using Suc.prems(4) gap by simp
  have pass: "parse_switch h p n (st, i) = (?st1, i + 1)"
    using attr_data_copy_pass [OF Suc.prems(1-3), of h p n i] ne by simp
  have ih: "parse_loop h p n (?st1, i + 1) =
         parse_loop h p n
           (attr_data_done ?st1 (map p [i + 1..<i + 1 + (unat ?cap - unat (?cur + 1))]),
            i + 1 + (unat ?len - unat (?cur + 1)))"
    using Suc.hyps(1) [of ?st1 "i + 1"] Suc.hyps(2) Suc.prems u lt1 by simp
  have bytes: "map p [i..<i + (unat ?cap - unat ?cur)]
               = p i # map p [i + 1..<i + 1 + (unat ?cap - unat (?cur + 1))]"
  proof -
    have "unat ?cap - unat (?cur + 1) = Suc d"
      using gap u by simp
    then show ?thesis
      by (simp only: gap map_upt_first)
  qed
  have "unat ?cur < unat ?len"
    using Suc.prems(2,3) by (simp add: word_less_nat_alt)
  then have idx: "i + 1 + (unat ?len - unat (?cur + 1)) = i + (unat ?len - unat ?cur)"
    using u by simp
  have first: "parse_loop h p n (st, i) = parse_loop h p n (?st1, i + 1)"
    using lt pass by (simp add: parse_loop_step)
  have fin: "attr_data_done ?st1 (map p [i + 1..<i + 1 + (unat ?cap - unat (?cur + 1))])
             = attr_data_done st (map p [i..<i + (unat ?cap - unat ?cur)])"
    by (simp only: bytes attr_data_done_step [OF u])
  show ?case
    by (simp only: first ih fin idx)
qed

subsection \<open>The UID that the parser compares with\<close>

text \<open>
  \<open>m_ancs_evt.notif.notif_uid\<close> is written by \<open>parse_notif\<close>, from bytes 4 to 7 of the
  notification packet, and a request leaves it as it is: the UID of the request goes into
  the command and nowhere else.
\<close>

lemma parse_notif_uid:
  "notif_uid (notif (m_ancs_evt (parse_notif h st p n))) = uint32_decode p BLE_ANCS_NOTIF_NOTIF_UID"
  by (simp add: parse_notif_def Let_def evt_handler_def)

lemma tx_buffer_process_keeps_evt:
  "m_ancs_evt (tx_buffer_process sd st) = m_ancs_evt st"
  by (simp add: tx_buffer_process_def Let_def)

lemma request_attrs_keeps_notification:
  assumes "ble_ancs_c_request_attrs h sd st n = Some r"
  shows "m_ancs_evt (snd r) = m_ancs_evt st"
  using assms
  by (auto simp: ble_ancs_c_request_attrs_def ble_ancs_get_notif_attrs_def Let_def
      tx_buffer_process_keeps_evt split: if_splits option.splits)

lemma request_attrs_resets_parser:
  assumes "ble_ancs_c_request_attrs h sd st n = Some (NRF_SUCCESS, st')"
  shows "m_parse_state st' = COMMAND_ID_AND_NOTIF_UID"
  using assms
  by (auto simp: ble_ancs_c_request_attrs_def Let_def split: if_splits option.splits)

text \<open>
  So the claim holds as the specification words it when the request was made for the
  notification decoded last and no notification has been decoded since.
\<close>

lemma uid_mismatch_of_request:
  assumes "ble_ancs_c_request_attrs h sd st0 (notif (m_ancs_evt st0)) = Some (NRF_SUCCESS, st)"
    and "5 \<le> unat (snd pk)"
    and "uint32_decode (fst pk) 1 \<noteq> notif_uid (notif (m_ancs_evt st0))"
  shows "on_data_source h st (pk # pks) =
           Some (st\<lparr>evt := (evt st)\<lparr>attr := (attr (evt st))
                       \<lparr>attr_notif_uid := uint32_decode (fst pk) 1\<rparr>\<rparr>,
                    m_parse_state := DONE\<rparr>)"
proof -
  have a: "m_parse_state st = COMMAND_ID_AND_NOTIF_UID"
    using assms(1) by (rule request_attrs_resets_parser)
  have "m_ancs_evt st = m_ancs_evt st0"
    using request_attrs_keeps_notification [OF assms(1)] by simp
  then have c: "uint32_decode (fst pk) 1 \<noteq> notif_uid (notif (m_ancs_evt st))"
    using assms(3) by simp
  have b: "snd pk \<noteq> 0"
    using assms(2) by auto
  from a b c show ?thesis
    by (rule header_uid_mismatch_run)
qed

end
